theory Spec2Isabelle
  imports Complex_Main "HOL-Library.AList"
begin

section \<open>Values shared by both programs\<close>

text \<open>
  Two programs are embedded: \<^verbatim>\<open>progress_tracker.py\<close> (several textbooks, one JSON file)
  and \<^verbatim>\<open>progress_tracker_QFT.py\<close> (one hard-coded textbook, a completion file and a
  configuration file). Definitions translated from the second carry the suffix \<open>_QFT\<close>
  where both programs have a function of the same name.

  Python strings are modelled as \<open>string\<close>, restricted to ASCII; Python integers as
  \<open>int\<close>; a Python \<^verbatim>\<open>dict\<close> as an association list in insertion order, updated with
  \<open>AList.update\<close> (an existing key keeps its place, a new key goes last) and
  \<open>AList.delete\<close>.
\<close>

datatype error =
    ValueError
  | KeyError
  | TypeError
  | IndexError
  | AttributeError
  | ZeroDivisionError
  | JSONDecodeError
  | OSError
  | TclError
  | Untyped

text \<open>
  All constructors of \<open>error\<close> but the last are Python exceptions. \<open>Untyped\<close> is
  none: it marks a run in which Python goes on with a value that the typed records below
  cannot hold (a page count that is a string, say). No property below is settled by
  such a run.
\<close>

text \<open>
  The values \<^verbatim>\<open>json.load\<close> returns and \<^verbatim>\<open>json.dump\<close> accepts. JSON reals are left
  out: neither program writes one.
\<close>

datatype json =
    JNull
  | JBool bool
  | JInt int
  | JStr string
  | JList "json list"
  | JObj "(string \<times> json) list"

text \<open>Python truthiness of a value, as \<^verbatim>\<open>if v:\<close> and \<^verbatim>\<open>not v\<close> test it.\<close>

fun truthy :: "json \<Rightarrow> bool" where
  "truthy JNull = False"
| "truthy (JBool b) = b"
| "truthy (JInt i) = (i \<noteq> 0)"
| "truthy (JStr s) = (s \<noteq> [])"
| "truthy (JList xs) = (xs \<noteq> [])"
| "truthy (JObj kvs) = (kvs \<noteq> [])"

subsection \<open>Calendar dates\<close>

text \<open>
  \<^verbatim>\<open>datetime.date\<close>: the three fields, the proleptic Gregorian ordinal that
  subtraction goes through, and the field-wise comparison.
\<close>

datatype date = Date (year: int) (month: int) (day: int)

definition is_leap :: "int \<Rightarrow> bool" where
  "is_leap y = (y mod 4 = 0 \<and> (y mod 100 \<noteq> 0 \<or> y mod 400 = 0))"

definition days_in_month :: "int \<Rightarrow> int \<Rightarrow> int" where
  "days_in_month y m =
     (if m = 2 then (if is_leap y then 29 else 28)
      else if m = 4 \<or> m = 6 \<or> m = 9 \<or> m = 11 then 30 else 31)"

definition valid_date :: "date \<Rightarrow> bool" where
  "valid_date d =
     (1 \<le> year d \<and> year d \<le> 9999 \<and> 1 \<le> month d \<and> month d \<le> 12 \<and>
      1 \<le> day d \<and> day d \<le> days_in_month (year d) (month d))"

definition days_before_year :: "int \<Rightarrow> int" where
  "days_before_year y = (y - 1) * 365 + (y - 1) div 4 - (y - 1) div 100 + (y - 1) div 400"

definition days_before_month :: "int \<Rightarrow> int \<Rightarrow> int" where
  "days_before_month y m =
     (if m = 1 then 0 else if m = 2 then 31 else if m = 3 then 59 else if m = 4 then 90
      else if m = 5 then 120 else if m = 6 then 151 else if m = 7 then 181
      else if m = 8 then 212 else if m = 9 then 243 else if m = 10 then 273
      else if m = 11 then 304 else 334)
     + (if 2 < m \<and> is_leap y then 1 else 0)"

text \<open>The number of leap years among the years 1 to \<open>n\<close>.\<close>

definition leap_days :: "int \<Rightarrow> int" where
  "leap_days n = n div 4 - n div 100 + n div 400"

definition toordinal :: "date \<Rightarrow> int" where
  "toordinal d = days_before_year (year d) + days_before_month (year d) (month d) + day d"

text \<open>\<^verbatim>\<open>(a - b).days\<close>\<close>

definition days_between :: "date \<Rightarrow> date \<Rightarrow> int" where
  "days_between a b = toordinal a - toordinal b"

text \<open>\<^verbatim>\<open>a <= b\<close> and \<^verbatim>\<open>a < b\<close> on dates compare (year, month, day).\<close>

definition date_le :: "date \<Rightarrow> date \<Rightarrow> bool" where
  "date_le a b =
     (year a < year b \<or> (year a = year b \<and>
        (month a < month b \<or> (month a = month b \<and> day a \<le> day b))))"

definition date_less :: "date \<Rightarrow> date \<Rightarrow> bool" where
  "date_less a b =
     (year a < year b \<or> (year a = year b \<and>
        (month a < month b \<or> (month a = month b \<and> day a < day b))))"

subsection \<open>Strings\<close>

text \<open>
  The characters \<^verbatim>\<open>str.strip\<close>, \<^verbatim>\<open>str.split\<close> and \<^verbatim>\<open>int\<close> treat as whitespace,
  among the ASCII ones: tab, line feed, vertical tab, form feed, carriage return, the
  four separators \<^verbatim>\<open>\x1c\<close> to \<^verbatim>\<open>\x1f\<close>, and the space.
\<close>

definition is_space :: "char \<Rightarrow> bool" where
  "is_space c = (c \<in> set [CHR 0x09, CHR 0x0A, CHR 0x0B, CHR 0x0C, CHR 0x0D,
                              CHR 0x1C, CHR 0x1D, CHR 0x1E, CHR 0x1F, CHR 0x20])"

definition py_strip :: "string \<Rightarrow> string" where
  "py_strip s = rev (dropWhile is_space (rev (dropWhile is_space s)))"

text \<open>\<^verbatim>\<open>s.split(sep)\<close> for a separator of one character: empty pieces are kept.\<close>

fun split_on :: "char \<Rightarrow> string \<Rightarrow> string list" where
  "split_on sep [] = [[]]"
| "split_on sep (c # cs) =
     (if c = sep then [] # split_on sep cs
      else (case split_on sep cs of [] \<Rightarrow> [[c]] | l # ls \<Rightarrow> (c # l) # ls))"

text \<open>\<^verbatim>\<open>s.split()\<close>: the maximal runs of characters that are not whitespace.\<close>

function split_ws :: "string \<Rightarrow> string list" where
  "split_ws s =
     (case dropWhile is_space s of
        [] \<Rightarrow> []
      | c # cs \<Rightarrow> takeWhile (\<lambda>x. \<not> is_space x) (c # cs)
                  # split_ws (dropWhile (\<lambda>x. \<not> is_space x) cs))"
  by pat_completeness auto
termination
proof (relation "measure length")
  fix s :: string and c cs
  assume "dropWhile is_space s = c # cs"
  then have "length (c # cs) \<le> length s"
    by (metis length_dropWhile_le)
  moreover have "length (dropWhile (\<lambda>x. \<not> is_space x) cs) \<le> length cs"
    by (rule length_dropWhile_le)
  ultimately show "(dropWhile (\<lambda>x. \<not> is_space x) cs, s) \<in> measure length"
    by simp
qed simp

declare split_ws.simps [simp del]

text \<open>\<^verbatim>\<open>s.lower()\<close> on ASCII text.\<close>

definition lower_char :: "char \<Rightarrow> char" where
  "lower_char c =
     (case map_of (zip ''ABCDEFGHIJKLMNOPQRSTUVWXYZ'' ''abcdefghijklmnopqrstuvwxyz'') c of
        None \<Rightarrow> c
      | Some l \<Rightarrow> l)"

definition py_lower :: "string \<Rightarrow> string" where
  "py_lower s = map lower_char s"

definition startswith :: "string \<Rightarrow> string \<Rightarrow> bool" where
  "startswith s p = (take (length p) s = p)"

definition is_digit :: "char \<Rightarrow> bool" where
  "is_digit c = ((48::nat) \<le> of_char c \<and> of_char c \<le> (57::nat))"

definition digit_val :: "char \<Rightarrow> nat" where
  "digit_val c = of_char c - 48"

text \<open>\<^verbatim>\<open>s.isdigit()\<close>: not empty, digits only.\<close>

definition isdigit :: "string \<Rightarrow> bool" where
  "isdigit s = (s \<noteq> [] \<and> list_all is_digit s)"

text \<open>
  \<^verbatim>\<open>int(s)\<close> on a string: surrounding whitespace is dropped, one sign is allowed, then
  decimal digits, where single underscores may stand between digits. Anything else is a
  \<^verbatim>\<open>ValueError\<close>. The whitespace of \<^verbatim>\<open>int\<close> is narrower than that of
  \<^verbatim>\<open>str.strip\<close>: tab, line feed, vertical tab, form feed, carriage return and space,
  without the separators \<^verbatim>\<open>\x1c\<close> to \<^verbatim>\<open>\x1f\<close>. A text of more than
  \<^verbatim>\<open>sys.int_max_str_digits\<close> digits (4300 unless the program changes it, and neither
  program does) is a \<^verbatim>\<open>ValueError\<close> too; leading zeros count, underscores do not.
  \<open>int_digits\<close> reads the digits; its flag says whether the character before was a
  digit.
\<close>

definition is_int_space :: "char \<Rightarrow> bool" where
  "is_int_space c = (c \<in> set [CHR 0x09, CHR 0x0A, CHR 0x0B, CHR 0x0C, CHR 0x0D, CHR 0x20])"

definition int_strip :: "string \<Rightarrow> string" where
  "int_strip s = rev (dropWhile is_int_space (rev (dropWhile is_int_space s)))"

definition int_max_str_digits :: nat where
  "int_max_str_digits = 4300"

fun int_digits :: "string \<Rightarrow> bool \<Rightarrow> nat \<Rightarrow> error + nat" where
  "int_digits [] prev acc = (if prev then Inr acc else Inl ValueError)"
| "int_digits (c # cs) prev acc =
     (if is_digit c then int_digits cs True (10 * acc + digit_val c)
      else if c = CHR ''_'' \<and> prev then int_digits cs False acc
      else Inl ValueError)"

definition py_int :: "string \<Rightarrow> error + int" where
  "py_int s =
     (if int_max_str_digits < length (filter is_digit s) then Inl ValueError
      else
        (case int_strip s of
           [] \<Rightarrow> Inl ValueError
         | c # cs \<Rightarrow>
             if c = CHR ''-'' then map_sum id (\<lambda>n. - int n) (int_digits cs False 0)
             else if c = CHR ''+'' then map_sum id int (int_digits cs False 0)
             else map_sum id int (int_digits (c # cs) False 0)))"

text \<open>
  \<^verbatim>\<open>d.isoformat()\<close> writes \<^verbatim>\<open>YYYY-MM-DD\<close> with leading zeros.
  \<^verbatim>\<open>date.fromisoformat\<close> reads ten characters of that shape in every Python version
  and then checks that the date exists (\<^verbatim>\<open>ValueError\<close> if not). On a text of another
  shape the versions differ: 3.7 to 3.10 raise \<^verbatim>\<open>ValueError\<close>, 3.11 and later also
  read \<^verbatim>\<open>YYYYMMDD\<close> and ISO week dates. What the running Python makes of such a text
  is the parameter \<open>other\<close>; \<open>strict_dates\<close> is the answer of 3.7 to 3.10.
\<close>

type_synonym date_reader = "string \<Rightarrow> error + date"

definition strict_dates :: date_reader where
  "strict_dates s = Inl ValueError"

definition digit_char :: "nat \<Rightarrow> char" where
  "digit_char n = ''0123456789'' ! (n mod 10)"

definition pad2 :: "int \<Rightarrow> string" where
  "pad2 n = [digit_char (nat n div 10), digit_char (nat n)]"

definition pad4 :: "int \<Rightarrow> string" where
  "pad4 n = [digit_char (nat n div 1000), digit_char (nat n div 100),
             digit_char (nat n div 10), digit_char (nat n)]"

definition isoformat :: "date \<Rightarrow> string" where
  "isoformat d = pad4 (year d) @ ''-'' @ pad2 (month d) @ ''-'' @ pad2 (day d)"

definition digits_value :: "string \<Rightarrow> nat" where
  "digits_value s = foldl (\<lambda>a c. 10 * a + digit_val c) 0 s"

definition fromisoformat :: "date_reader \<Rightarrow> string \<Rightarrow> error + date" where
  "fromisoformat other s =
     (if length s = 10 \<and> list_all is_digit (take 4 s) \<and> s ! 4 = CHR ''-'' \<and>
         list_all is_digit (take 2 (drop 5 s)) \<and> s ! 7 = CHR ''-'' \<and>
         list_all is_digit (drop 8 s)
      then
        let d = Date (int (digits_value (take 4 s))) (int (digits_value (take 2 (drop 5 s))))
                     (int (digits_value (drop 8 s)))
        in if valid_date d then Inr d else Inl ValueError
      else other s)"

section \<open>The multi-textbook tracker\<close>

text \<open>The class \<^verbatim>\<open>Textbook\<close>. Its constructor always starts with no completed problem.\<close>

record textbook =
  name :: string
  author :: string
  total_pages :: int
  current_page :: int
  problems_dict :: "(string \<times> string list) list"
  start_date :: date
  end_date :: date
  completed_problems :: "(string \<times> json) list"

definition Textbook ::
  "string \<Rightarrow> string \<Rightarrow> int \<Rightarrow> (string \<times> string list) list \<Rightarrow> date \<Rightarrow> date \<Rightarrow> int \<Rightarrow> textbook"
where
  "Textbook n a tp pd sd ed cp =
     \<lparr>name = n, author = a, total_pages = tp, current_page = cp, problems_dict = pd,
      start_date = sd, end_date = ed, completed_problems = []\<rparr>"

subsection \<open>The chapter and problem parser\<close>

text \<open>
  \<^verbatim>\<open>parse_problems\<close>. The loop state is the dictionary \<^verbatim>\<open>problems\<close> and
  \<^verbatim>\<open>current_chapter\<close> (\<open>None\<close> before the first chapter line). \<open>parse_line\<close> is one
  turn of the loop: \<^verbatim>\<open>line.split()[1]\<close> may raise \<^verbatim>\<open>IndexError\<close>, and
  \<^verbatim>\<open>problems[current_chapter]\<close> may raise \<^verbatim>\<open>KeyError\<close>.
\<close>

definition newline :: char where
  "newline = CHR 0x0A"

type_synonym parse_state = "(string \<times> string list) list \<times> string option"

definition parse_line :: "string \<Rightarrow> parse_state \<Rightarrow> error + parse_state" where
  "parse_line raw st =
     (let line = py_strip raw; problems = fst st; current_chapter = snd st in
      if startswith (py_lower line) ''chapter '' then
        (case split_ws line of
           _ # ch # _ \<Rightarrow> Inr (AList.update ch [] problems, Some ch)
         | _ \<Rightarrow> Inl IndexError)
      else
        (case current_chapter of
           None \<Rightarrow> Inr st
         | Some ch \<Rightarrow>
             if ch \<noteq> [] \<and> line \<noteq> [] then
               (case map_of problems ch of
                  None \<Rightarrow> Inl KeyError
                | Some ps \<Rightarrow>
                    Inr (AList.update ch (ps @ map py_strip (split_on (CHR '','') line)) problems,
                         current_chapter))
             else Inr st))"

fun parse_lines :: "string list \<Rightarrow> parse_state \<Rightarrow> error + parse_state" where
  "parse_lines [] st = Inr st"
| "parse_lines (l # ls) st =
     (case parse_line l st of Inl e \<Rightarrow> Inl e | Inr st' \<Rightarrow> parse_lines ls st')"

definition parse_problems :: "string \<Rightarrow> error + (string \<times> string list) list" where
  "parse_problems text =
     (case parse_lines (split_on newline (py_strip text)) ([], None) of
        Inl e \<Rightarrow> Inl e
      | Inr st \<Rightarrow> Inr (fst st))"

subsection \<open>Persistence\<close>

text \<open>
  The file \<^verbatim>\<open>textbooks.json\<close> as \<^verbatim>\<open>os.path.exists\<close> and \<^verbatim>\<open>json.load\<close> see it:
  absent, present with text that is not JSON, or present with a JSON value.
  \<^verbatim>\<open>json.dump\<close> followed by \<^verbatim>\<open>json.load\<close> gives back the value written (it consists
  of dictionaries with string keys, lists, strings, integers, truth values and
  \<^verbatim>\<open>None\<close>).
\<close>

datatype stored = Absent | Undecodable | Contents json

definition to_dict :: "textbook \<Rightarrow> json" where
  "to_dict tb =
     JObj [(''name'', JStr (name tb)),
           (''author'', JStr (author tb)),
           (''total_pages'', JInt (total_pages tb)),
           (''current_page'', JInt (current_page tb)),
           (''problems_dict'',
              JObj (map (\<lambda>kv. (fst kv, JList (map JStr (snd kv)))) (problems_dict tb))),
           (''start_date'', JStr (isoformat (start_date tb))),
           (''end_date'', JStr (isoformat (end_date tb))),
           (''completed_problems'', JObj (completed_problems tb))]"

text \<open>Sequencing: an exception ends the computation, a value goes on to the next step.\<close>

definition and_then :: "error + 'a \<Rightarrow> ('a \<Rightarrow> error + 'b) \<Rightarrow> error + 'b" where
  "and_then m f = (case m of Inl e \<Rightarrow> Inl e | Inr x \<Rightarrow> f x)"

text \<open>\<^verbatim>\<open>data[key]\<close> with a string key: only a \<^verbatim>\<open>dict\<close> can be indexed so.\<close>

definition getitem :: "json \<Rightarrow> string \<Rightarrow> error + json" where
  "getitem data k =
     (case data of
        JObj kvs \<Rightarrow> (case map_of kvs k of None \<Rightarrow> Inl KeyError | Some v \<Rightarrow> Inr v)
      | _ \<Rightarrow> Inl TypeError)"

text \<open>\<^verbatim>\<open>date.fromisoformat(v)\<close> on a loaded value: the argument must be a string.\<close>

definition fromisoformat_value :: "date_reader \<Rightarrow> json \<Rightarrow> error + date" where
  "fromisoformat_value other v =
     (case v of JStr s \<Rightarrow> fromisoformat other s | _ \<Rightarrow> Inl TypeError)"

text \<open>Reading a loaded value at the type the record gives the field.\<close>

definition as_str :: "json \<Rightarrow> error + string" where
  "as_str v = (case v of JStr s \<Rightarrow> Inr s | _ \<Rightarrow> Inl Untyped)"

definition as_int :: "json \<Rightarrow> error + int" where
  "as_int v = (case v of JInt i \<Rightarrow> Inr i | _ \<Rightarrow> Inl Untyped)"

fun as_str_list :: "json list \<Rightarrow> error + string list" where
  "as_str_list [] = Inr []"
| "as_str_list (v # vs) =
     (case v of
        JStr s \<Rightarrow> (case as_str_list vs of Inl e \<Rightarrow> Inl e | Inr ss \<Rightarrow> Inr (s # ss))
      | _ \<Rightarrow> Inl Untyped)"

fun as_chapters :: "(string \<times> json) list \<Rightarrow> error + (string \<times> string list) list" where
  "as_chapters [] = Inr []"
| "as_chapters (kv # kvs) =
     (case snd kv of
        JList vs \<Rightarrow>
          (case as_str_list vs of
             Inl e \<Rightarrow> Inl e
           | Inr ps \<Rightarrow>
               (case as_chapters kvs of Inl e \<Rightarrow> Inl e | Inr r \<Rightarrow> Inr ((fst kv, ps) # r)))
      | _ \<Rightarrow> Inl Untyped)"

definition as_problems_dict :: "json \<Rightarrow> error + (string \<times> string list) list" where
  "as_problems_dict v = (case v of JObj kvs \<Rightarrow> as_chapters kvs | _ \<Rightarrow> Inl Untyped)"

text \<open>
  \<^verbatim>\<open>Textbook.from_dict\<close>. The arguments of the constructor call are evaluated from left
  to right: name, author, total pages, problems, start date, end date, current page.
  The key \<^verbatim>\<open>completed_problems\<close> is not read; the constructor sets the attribute to the
  empty dictionary.
\<close>

definition from_dict :: "date_reader \<Rightarrow> json \<Rightarrow> error + textbook" where
  "from_dict other data =
     and_then (getitem data ''name'') (\<lambda>n.
     and_then (getitem data ''author'') (\<lambda>a.
     and_then (getitem data ''total_pages'') (\<lambda>tp.
     and_then (getitem data ''problems_dict'') (\<lambda>pd.
     and_then (getitem data ''start_date'') (\<lambda>sv.
     and_then (fromisoformat_value other sv) (\<lambda>sd.
     and_then (getitem data ''end_date'') (\<lambda>ev.
     and_then (fromisoformat_value other ev) (\<lambda>ed.
     and_then (getitem data ''current_page'') (\<lambda>cp.
     and_then (as_str n) (\<lambda>n'.
     and_then (as_str a) (\<lambda>a'.
     and_then (as_int tp) (\<lambda>tp'.
     and_then (as_problems_dict pd) (\<lambda>pd'.
     and_then (as_int cp) (\<lambda>cp'.
       Inr (Textbook n' a' tp' pd' sd ed cp')))))))))))))))"

text \<open>The list comprehension of \<^verbatim>\<open>load_textbooks\<close>: the first failing element ends it.\<close>

fun from_dicts :: "date_reader \<Rightarrow> json list \<Rightarrow> error + textbook list" where
  "from_dicts other [] = Inr []"
| "from_dicts other (td # tds) =
     (case from_dict other td of
        Inl e \<Rightarrow> Inl e
      | Inr t \<Rightarrow> (case from_dicts other tds of Inl e \<Rightarrow> Inl e | Inr ts \<Rightarrow> Inr (t # ts)))"

text \<open>
  What \<^verbatim>\<open>for td in json.load(f)\<close> iterates over: the elements of a list, the keys of a
  dictionary, the characters of a string; other values are not iterable.
\<close>

definition iterate :: "json \<Rightarrow> error + json list" where
  "iterate v =
     (case v of
        JList xs \<Rightarrow> Inr xs
      | JObj kvs \<Rightarrow> Inr (map (\<lambda>kv. JStr (fst kv)) kvs)
      | JStr s \<Rightarrow> Inr (map (\<lambda>c. JStr [c]) s)
      | _ \<Rightarrow> Inl TypeError)"

text \<open>
  \<^verbatim>\<open>load_textbooks\<close>: nothing in it catches an exception, so \<open>Inl\<close> is an exception
  that leaves the function (it is called while the module starts).
\<close>

definition load_textbooks :: "date_reader \<Rightarrow> stored \<Rightarrow> error + textbook list" where
  "load_textbooks other f =
     (case f of
        Absent \<Rightarrow> Inr []
      | Undecodable \<Rightarrow> Inl JSONDecodeError
      | Contents v \<Rightarrow> (case iterate v of Inl e \<Rightarrow> Inl e | Inr tds \<Rightarrow> from_dicts other tds))"

definition save_textbooks :: "textbook list \<Rightarrow> stored" where
  "save_textbooks textbooks = Contents (JList (map to_dict textbooks))"

subsection \<open>Adding a textbook\<close>

text \<open>The texts of the six fields of the dialog when "Add" is pressed.\<close>

record entries =
  e_name :: string
  e_author :: string
  e_pages :: string
  e_start :: string
  e_end :: string
  e_problems :: string

text \<open>
  \<^verbatim>\<open>parse_and_add\<close>: the list \<^verbatim>\<open>textbooks\<close> after the call, and the exception the error
  box reports (\<open>None\<close> when the dialog closed without one). The \<^verbatim>\<open>except\<close> clause
  catches every exception of the body. The body appends the new textbook first and then
  writes the file, inserts the name into the list box and closes the dialog; what the
  write raises (\<open>save_raises\<close>, for instance \<^verbatim>\<open>OSError\<close>) and what the two window
  calls raise (\<open>window_raises\<close>, \<^verbatim>\<open>TclError\<close>) are parameters, \<open>None\<close> when they
  succeed. An exception of these later steps finds the textbook appended already.
\<close>

definition parse_and_add ::
  "date_reader \<Rightarrow> entries \<Rightarrow> error option \<Rightarrow> error option \<Rightarrow> textbook list
     \<Rightarrow> textbook list \<times> error option"
where
  "parse_and_add other en save_raises window_raises textbooks =
     (case fromisoformat other (e_start en) of
        Inl e \<Rightarrow> (textbooks, Some e)
      | Inr sd \<Rightarrow>
     (case fromisoformat other (e_end en) of
        Inl e \<Rightarrow> (textbooks, Some e)
      | Inr ed \<Rightarrow>
          if date_less ed sd then (textbooks, Some ValueError)
          else
     (case parse_problems (e_problems en) of
        Inl e \<Rightarrow> (textbooks, Some e)
      | Inr problems \<Rightarrow>
     (case py_int (e_pages en) of
        Inl e \<Rightarrow> (textbooks, Some e)
      | Inr tp \<Rightarrow>
          let appended = textbooks @ [Textbook (e_name en) (e_author en) tp problems sd ed 0]
          in (case save_raises of
                Some e \<Rightarrow> (appended, Some e)
              | None \<Rightarrow> (appended, window_raises))))))"

subsection \<open>Progress display, current page and completion\<close>

text \<open>
  Python's \<^verbatim>\<open>a / b\<close> on integers: true division, \<^verbatim>\<open>ZeroDivisionError\<close> for a zero
  divisor. The floating-point quotient is idealised as a real number.
\<close>

definition py_truediv :: "int \<Rightarrow> int \<Rightarrow> error + real" where
  "py_truediv a b = (if b = 0 then Inl ZeroDivisionError else Inr (real_of_int a / real_of_int b))"

text \<open>What \<^verbatim>\<open>update_display\<close> computes and shows: the day counts, the two bar values and
  the required pace (absent when the label is cleared).\<close>

record display =
  total_days :: int
  days_elapsed :: int
  days_left :: int
  semester_value :: real
  textbook_value :: real
  pace :: "real option"

text \<open>
  \<^verbatim>\<open>update_display\<close>, with \<^verbatim>\<open>date.today()\<close> as a parameter. No textbook selected: the
  function returns at once (\<open>Inr None\<close>). The model ends with the last label; the
  closing call of \<^verbatim>\<open>update_tree\<close>, which redraws the tree and computes none of these
  values, is left out.
\<close>

definition update_display :: "textbook option \<Rightarrow> date \<Rightarrow> error + display option" where
  "update_display current_textbook today =
     (case current_textbook of
        None \<Rightarrow> Inr None
      | Some tb \<Rightarrow>
          let start = start_date tb;
              end' = end_date tb;
              td = days_between end' start;
              de = (if date_le start today then max 0 (days_between today start) else 0);
              dl = (if date_le today end' then max 0 (days_between end' today) else 0)
          in
          (case (if td \<noteq> 0 then map_sum id (\<lambda>q. q * 100) (py_truediv de td) else Inr 0) of
             Inl e \<Rightarrow> Inl e
           | Inr sv \<Rightarrow>
          (case (if total_pages tb \<noteq> 0
                 then map_sum id (\<lambda>q. q * 100) (py_truediv (current_page tb) (total_pages tb))
                 else Inr 0) of
             Inl e \<Rightarrow> Inl e
           | Inr tv \<Rightarrow>
          (case (if 0 < dl
                 then map_sum id Some (py_truediv (total_pages tb - current_page tb) dl)
                 else Inr None) of
             Inl e \<Rightarrow> Inl e
           | Inr p \<Rightarrow>
               Inr (Some \<lparr>total_days = td, days_elapsed = de, days_left = dl,
                           semester_value = sv, textbook_value = tv, pace = p\<rparr>)))))"

text \<open>
  \<^verbatim>\<open>update_page\<close>, with the text of the page entry as a parameter; it returns the selected
  textbook after the call. The digits-only test comes before \<^verbatim>\<open>int\<close>, whose
  \<^verbatim>\<open>ValueError\<close> is caught and ignored. Writing the file and redrawing are left out.
\<close>

definition update_page :: "string \<Rightarrow> textbook option \<Rightarrow> textbook option" where
  "update_page page_entry current_textbook =
     (case current_textbook of
        None \<Rightarrow> None
      | Some tb \<Rightarrow>
          if isdigit page_entry then
            (case py_int page_entry of
               Inl e \<Rightarrow> Some tb
             | Inr new_page \<Rightarrow>
                 if 0 \<le> new_page \<and> new_page \<le> total_pages tb
                 then Some (tb\<lparr>current_page := new_page\<rparr>)
                 else Some tb)
          else Some tb)"

text \<open>
  A row of the tree widget, as far as the programs read it: whether it has a parent (a
  problem row has, a chapter row has not), its text, and its \<^verbatim>\<open>values\<close> tuple.
\<close>

datatype item = Item (has_parent: bool) (item_text: string) (item_values: "string list")



section \<open>The single-textbook (QFT) tracker: progress display\<close>

definition SEMESTER_START :: date where "SEMESTER_START = Date 2025 1 13"
definition SEMESTER_END :: date where "SEMESTER_END = Date 2025 5 9"
definition TOTAL_PAGES :: int where "TOTAL_PAGES = 258"
definition INITIAL_PAGE :: int where "INITIAL_PAGE = 0"

definition TOTAL_SEMESTER_DAYS :: int where
  "TOTAL_SEMESTER_DAYS = days_between SEMESTER_END SEMESTER_START"

datatype schedule = On_track | Behind | Ahead

record widget =
  w_days_elapsed :: int
  w_days_left :: int
  semester_percentage :: real
  textbook_percentage :: real
  expected_page :: real
  page_diff :: real
  pages_per_day :: "real option"
  diff_status :: schedule

text \<open>\<^verbatim>\<open>update_widget\<close>, with today's date and the global \<^verbatim>\<open>current_page\<close> as parameters.\<close>

definition update_widget :: "int \<Rightarrow> date \<Rightarrow> error + widget" where
  "update_widget cur_page today =
     (let (de, dl) =
            (if date_less today SEMESTER_START then (0, TOTAL_SEMESTER_DAYS)
             else if date_less SEMESTER_END today then (TOTAL_SEMESTER_DAYS, 0)
             else (days_between today SEMESTER_START, days_between SEMESTER_END today))
      in
      (case py_truediv de TOTAL_SEMESTER_DAYS of
         Inl e \<Rightarrow> Inl e
       | Inr q \<Rightarrow>
      (case py_truediv cur_page TOTAL_PAGES of
         Inl e \<Rightarrow> Inl e
       | Inr r \<Rightarrow>
          let sp = q * 100;
              tp = r * 100;
              ep = q * real_of_int TOTAL_PAGES;
              pd = real_of_int cur_page - ep
          in
          (case (if 0 < dl then map_sum id Some (py_truediv (TOTAL_PAGES - cur_page) dl)
                 else Inr None) of
             Inl e \<Rightarrow> Inl e
           | Inr ppd \<Rightarrow>
               Inr \<lparr>w_days_elapsed = de, w_days_left = dl, semester_percentage = sp,
                    textbook_percentage = tp, expected_page = ep, page_diff = pd,
                    pages_per_day = ppd,
                    diff_status = (if \<bar>pd\<bar> < 1 then On_track
                                   else if pd < 0 then Behind else Ahead)\<rparr>))))"

section \<open>The single-textbook (QFT) tracker: page, completion and documents\<close>

datatype page_outcome = Page_updated | Warn_out_of_range | Warn_not_a_number

text \<open>
  \<^verbatim>\<open>update_page\<close> of the QFT tracker, on the global \<^verbatim>\<open>current_page\<close>. After a warning
  the entry shows the old page again. The configuration file it rewrites is left out.
\<close>

definition update_page_QFT :: "string \<Rightarrow> int \<Rightarrow> int \<times> page_outcome" where
  "update_page_QFT page_entry cur_page =
     (case py_int page_entry of
        Inl e \<Rightarrow> (cur_page, Warn_not_a_number)
      | Inr new_page \<Rightarrow>
          if 0 \<le> new_page \<and> new_page \<le> TOTAL_PAGES then (new_page, Page_updated)
          else (cur_page, Warn_out_of_range))"

text \<open>
  \<^verbatim>\<open>dict.get(key)\<close> on a value of the completion map: only a \<^verbatim>\<open>dict\<close> has the method.
\<close>

definition dict_get :: "json \<Rightarrow> string \<Rightarrow> error + json" where
  "dict_get v k =
     (case v of
        JObj kvs \<Rightarrow> (case map_of kvs k of None \<Rightarrow> Inr JNull | Some x \<Rightarrow> Inr x)
      | _ \<Rightarrow> Inl AttributeError)"

text \<open>\<^verbatim>\<open>tree.item(item, "text").split()[0]\<close>\<close>

definition first_token :: "item \<Rightarrow> error + string" where
  "first_token it = (case split_ws (item_text it) of [] \<Rightarrow> Inl IndexError | t # _ \<Rightarrow> Inr t)"




text \<open>
  \<^verbatim>\<open>load_completed_problems\<close>. Every exception is caught and answered with the empty
  dictionary. A legacy list becomes a dictionary keyed by its elements; an element that
  is a list or a dictionary cannot be a key (\<^verbatim>\<open>TypeError\<close>, caught). A key that is
  no string has no place in the association list (\<open>Untyped\<close>).
\<close>

fun legacy_entries :: "json list \<Rightarrow> error + (string \<times> json) list" where
  "legacy_entries [] = Inr []"
| "legacy_entries (v # vs) =
     (case v of
        JStr prob \<Rightarrow>
          (case legacy_entries vs of
             Inl e \<Rightarrow> Inl e
           | Inr r \<Rightarrow>
               Inr ((prob, JObj [(''complete'', JBool True), (''document'', JNull)])
                    # AList.delete prob r))
      | JList _ \<Rightarrow> Inl TypeError
      | JObj _ \<Rightarrow> Inl TypeError
      | _ \<Rightarrow> (case legacy_entries vs of Inl e \<Rightarrow> Inl e | Inr r \<Rightarrow> Inl Untyped))"

definition load_completed_problems :: "stored \<Rightarrow> error + (string \<times> json) list" where
  "load_completed_problems f =
     (case f of
        Absent \<Rightarrow> Inr []
      | Undecodable \<Rightarrow> Inr []
      | Contents (JList xs) \<Rightarrow>
          (case legacy_entries xs of
             Inl e \<Rightarrow> (if e = Untyped then Inl Untyped else Inr [])
           | Inr d \<Rightarrow> Inr d)
      | Contents (JObj kvs) \<Rightarrow> Inr kvs
      | Contents _ \<Rightarrow> Inr [])"

definition UPLOAD_DIR :: string where "UPLOAD_DIR = ''uploaded_documents''"

text \<open>\<^verbatim>\<open>os.path.join\<close> of two components, POSIX flavour.\<close>

definition path_join :: "string \<Rightarrow> string \<Rightarrow> string" where
  "path_join a b =
     (if startswith b ''/'' then b
      else if a = [] \<or> last a = CHR ''/'' then a @ b
      else a @ ''/'' @ b)"

datatype upload_outcome =
    No_selection
  | Selection_error
  | Not_complete
  | Cancelled
  | Upload_error
  | Upload_successful

text \<open>
  \<^verbatim>\<open>upload_document\<close>. The user's answer to the file dialog (\<open>file_path\<close>, empty when
  cancelled), the extension \<^verbatim>\<open>os.path.splitext(file_path)[1]\<close> and whether
  \<^verbatim>\<open>shutil.copy\<close> succeeds are parameters. The result is the completion map after the
  call and the message shown.
\<close>

definition upload_document ::
  "item list \<Rightarrow> string \<Rightarrow> string \<Rightarrow> bool \<Rightarrow> (string \<times> json) list
     \<Rightarrow> error + (string \<times> json) list \<times> upload_outcome"
where
  "upload_document selected file_path ext copy_ok cp =
     (case selected of
        [] \<Rightarrow> Inr (cp, No_selection)
      | it # _ \<Rightarrow>
          if \<not> has_parent it then Inr (cp, Selection_error)
          else
            (case first_token it of
               Inl e \<Rightarrow> Inl e
             | Inr prob \<Rightarrow>
                 (case map_of cp prob of
                    None \<Rightarrow> Inr (cp, Not_complete)
                  | Some entry \<Rightarrow>
                      (case dict_get entry ''complete'' of
                         Inl e \<Rightarrow> Inl e
                       | Inr c \<Rightarrow>
                           if \<not> truthy c then Inr (cp, Not_complete)
                           else if file_path = [] then Inr (cp, Cancelled)
                           else if \<not> copy_ok then Inr (cp, Upload_error)
                           else
                             (case entry of
                                JObj kvs \<Rightarrow>
                                  Inr (AList.update prob
                                         (JObj (AList.update ''document''
                                            (JStr (path_join UPLOAD_DIR (prob @ ext))) kvs)) cp,
                                       Upload_successful)
                              | _ \<Rightarrow> Inr (cp, Upload_error))))))"

text \<open>
  A problem "has a completion entry marked complete": the completion map has a \<^verbatim>\<open>dict\<close>
  for it whose \<^verbatim>\<open>complete\<close> value is true.
\<close>

definition marked_complete :: "(string \<times> json) list \<Rightarrow> string \<Rightarrow> bool" where
  "marked_complete cp prob =
     (case map_of cp prob of
        Some (JObj kvs) \<Rightarrow> (case map_of kvs ''complete'' of None \<Rightarrow> False | Some c \<Rightarrow> truthy c)
      | _ \<Rightarrow> False)"

section \<open>The parser, block by block\<close>

text \<open>
  A second description of the parser, following the specification's grammar instead of
  the loop: the lines are trimmed; each chapter line opens a block that runs until the
  next chapter line or the end of the input; the block's problems are the trimmed
  comma-separated pieces of its non-empty lines, in order; lines before the first
  chapter line belong to no block. What counts as a chapter line and what its key is
  are parameters of \<open>chapter_blocks\<close>.
\<close>

definition spec_trim_lines :: "string \<Rightarrow> string list" where
  "spec_trim_lines text = map py_strip (split_on newline text)"

definition spec_pieces :: "string \<Rightarrow> string list" where
  "spec_pieces line = map py_strip (split_on (CHR '','') line)"

definition block_problems :: "(string \<Rightarrow> bool) \<Rightarrow> string list \<Rightarrow> string list" where
  "block_problems chap ls =
     concat (map spec_pieces (filter (\<lambda>l. l \<noteq> []) (takeWhile (\<lambda>l. \<not> chap l) ls)))"

fun chapter_blocks ::
  "(string \<Rightarrow> bool) \<Rightarrow> (string \<Rightarrow> string) \<Rightarrow> string list \<Rightarrow> (string \<times> string list) list"
where
  "chapter_blocks chap key [] = []"
| "chapter_blocks chap key (l # ls) =
     (if chap l then (key l, block_problems chap ls) # chapter_blocks chap key ls
      else chapter_blocks chap key ls)"

text \<open>The blocks become a dictionary by assignment, in order.\<close>

definition assemble :: "(string \<times> string list) list \<Rightarrow> (string \<times> string list) list" where
  "assemble blocks = foldl (\<lambda>d b. AList.update (fst b) (snd b) d) [] blocks"

text \<open>
  A chapter line in the specification's words: the line begins with the token
  "chapter" in any letter case, a separating character follows, and a token follows
  that. \<open>sep\<close> says which characters separate: the specification reads
  "whitespace" (\<open>is_space\<close>). The key is the token after the separator.
\<close>

definition spec_chapter_line :: "(char \<Rightarrow> bool) \<Rightarrow> string \<Rightarrow> bool" where
  "spec_chapter_line sep line =
     (7 < length line \<and> py_lower (take 7 line) = ''chapter'' \<and> sep (line ! 7) \<and>
      list_ex (\<lambda>c. \<not> is_space c) (drop 8 line))"

definition spec_key :: "string \<Rightarrow> string" where
  "spec_key line = takeWhile (\<lambda>c. \<not> is_space c) (dropWhile is_space (drop 7 line))"

definition spec_parse :: "(char \<Rightarrow> bool) \<Rightarrow> string \<Rightarrow> (string \<times> string list) list" where
  "spec_parse sep text =
     assemble (chapter_blocks (spec_chapter_line sep) spec_key (spec_trim_lines text))"

text \<open>The same two notions as the loop of \<^verbatim>\<open>parse_problems\<close> computes them.\<close>

definition is_chapter_line :: "string \<Rightarrow> bool" where
  "is_chapter_line line = startswith (py_lower line) ''chapter ''"

definition second_token :: "string \<Rightarrow> string" where
  "second_token line = (case split_ws line of _ # k # _ \<Rightarrow> k | _ \<Rightarrow> [])"

section \<open>Rejected input of the add dialog\<close>

text \<open>
  The input that \<^verbatim>\<open>parse_and_add\<close> is claimed to refuse, as far as the code checks it: a
  date text that \<^verbatim>\<open>date.fromisoformat\<close> does not read, a start date after the end
  date, or a page text that \<^verbatim>\<open>int\<close> does not read.
\<close>

definition add_rejected :: "date_reader \<Rightarrow> entries \<Rightarrow> bool" where
  "add_rejected other en =
     (case fromisoformat other (e_start en) of
        Inl _ \<Rightarrow> True
      | Inr sd \<Rightarrow>
          (case fromisoformat other (e_end en) of
             Inl _ \<Rightarrow> True
           | Inr ed \<Rightarrow> date_less ed sd \<or> (case py_int (e_pages en) of Inl _ \<Rightarrow> True | Inr _ \<Rightarrow> False)))"

section \<open>Sample data\<close>

definition example_textbook :: textbook where
  "example_textbook =
     Textbook ''QFT'' ''Peskin'' 258 [(''3'', [''3.1'', ''3.2''])] (Date 2025 1 13) (Date 2025 5 9) 80"

definition example_completed :: "(string \<times> json) list" where
  "example_completed =
     [(''3.1a'', JObj [(''complete'', JBool True), (''document'', JNull)]),
      (''3.2'', JObj [(''complete'', JBool True),
                      (''document'', JStr ''uploaded_documents/3.2.pdf'')])]"

text \<open>The row of problem 3.2 as the QFT tree shows it when complete with a document
  (the check mark is three bytes in UTF-8), and as it shows it when incomplete.\<close>

definition row_done :: item where
  "row_done = Item True (''3.2  '' @ [CHR 0xE2, CHR 0x9C, CHR 0x93] @ '' (doc)'') [''3.2'']"


text \<open>Three chapter texts: the one of the specification's scenario, one that separates
  "Chapter" from its number by a tab, and one that names chapter 1 twice.\<close>

definition scenario_text :: string where
  "scenario_text = ''Chapter 1'' @ [newline] @ ''1.1, 1.2a'' @ [newline] @ ''Chapter 2'' @ [newline] @ ''2.1''"

definition tab_text :: string where
  "tab_text = ''Chapter 1'' @ [newline] @ ''Chapter'' @ [CHR 0x09] @ ''2'' @ [newline] @ ''2.1''"

definition repeat_text :: string where
  "repeat_text = ''Chapter 1'' @ [newline] @ ''1.1, 1.2'' @ [newline] @ ''Chapter 2'' @ [newline]
       @ ''2.1'' @ [newline] @ ''Chapter 1'' @ [newline] @ ''1.3''"

text \<open>The sample textbook with one problem marked complete.\<close>

definition marked_textbook :: textbook where
  "marked_textbook = example_textbook\<lparr>completed_problems := [(''3.1'', JObj [(''complete'', JBool True)])]\<rparr>"

text \<open>Three fillings of the add dialog: the end date before the start date, zero pages,
  and one with nothing wrong.\<close>

definition reversed_dates :: entries where
  "reversed_dates = \<lparr>e_name = ''QFT'', e_author = ''Peskin'', e_pages = ''258'',
      e_start = ''2025-06-01'', e_end = ''2025-01-01'', e_problems = scenario_text @ [newline]\<rparr>"

definition zero_pages :: entries where
  "zero_pages = \<lparr>e_name = ''QFT'', e_author = ''Peskin'', e_pages = ''0'',
      e_start = ''2025-01-13'', e_end = ''2025-05-09'', e_problems = scenario_text @ [newline]\<rparr>"

definition plain_entries :: entries where
  "plain_entries = \<lparr>e_name = ''QFT'', e_author = ''Peskin'', e_pages = ''258'',
      e_start = ''2025-01-13'', e_end = ''2025-05-09'', e_problems = scenario_text @ [newline]\<rparr>"

section \<open>Verified properties\<close>

subsection \<open>Calendar arithmetic\<close>

text \<open>The ordinal of a date grows with the date; the comparison of dates and the
  subtraction of dates agree.\<close>

lemma div_step:
  fixes n k :: int
  assumes "0 < k"
  shows "(n + 1) div k = n div k + (if (n + 1) mod k = 0 then 1 else 0)"
proof -
  let ?q = "n div k" and ?r = "n mod k"
  have n: "k * ?q + ?r = n" by (rule mult_div_mod_eq)
  have r: "0 \<le> ?r" "?r < k" using assms by simp_all
  show ?thesis
  proof (cases "?r + 1 = k")
    case True
    have "n + 1 = (k * ?q + ?r) + 1" by (simp only: n)
    also have "\<dots> = k * ?q + (?r + 1)" by simp
    also have "\<dots> = k * ?q + k" by (simp only: True)
    also have "\<dots> = k * (?q + 1) + 0" by (simp add: algebra_simps)
    finally have e: "n + 1 = k * (?q + 1) + 0" .
    have "(n + 1) div k = ?q + 1" using e _ assms by (rule int_div_pos_eq) simp
    moreover have "(n + 1) mod k = 0" using e _ assms by (rule int_mod_pos_eq) simp
    ultimately show ?thesis by simp
  next
    case False
    with r have lt: "?r + 1 < k" by simp
    have "n + 1 = (k * ?q + ?r) + 1" by (simp only: n)
    also have "\<dots> = k * ?q + (?r + 1)" by simp
    finally have e: "n + 1 = k * ?q + (?r + 1)" .
    have "(n + 1) div k = ?q" using e _ lt by (rule int_div_pos_eq) (use r in simp)
    moreover have "(n + 1) mod k = ?r + 1" using e _ lt by (rule int_mod_pos_eq) (use r in simp)
    ultimately show ?thesis using r by simp
  qed
qed

lemma mod_400_100: "(m::int) mod 400 = 0 \<Longrightarrow> m mod 100 = 0"
proof -
  assume "m mod 400 = 0"
  then have "400 dvd m" by (simp add: dvd_eq_mod_eq_0)
  moreover have "(100::int) dvd 400" by simp
  ultimately have "100 dvd m" by (rule dvd_trans [rotated])
  then show ?thesis by (simp add: dvd_eq_mod_eq_0)
qed

lemma mod_100_4: "(m::int) mod 100 = 0 \<Longrightarrow> m mod 4 = 0"
proof -
  assume "m mod 100 = 0"
  then have "100 dvd m" by (simp add: dvd_eq_mod_eq_0)
  moreover have "(4::int) dvd 100" by simp
  ultimately have "4 dvd m" by (rule dvd_trans [rotated])
  then show ?thesis by (simp add: dvd_eq_mod_eq_0)
qed

lemma leap_indicator:
  fixes a b c :: int
  assumes "p400 \<Longrightarrow> p100" "p100 \<Longrightarrow> p4"
  shows "(if p4 then 1 else 0) - (if p100 then 1 else 0) + (if p400 then 1 else (0::int))
       = (if p4 \<and> (\<not> p100 \<or> p400) then 1 else 0)"
  using assms by (cases p400; cases p100; cases p4) simp_all

lemma leap_days_step: "leap_days (n + 1) = leap_days n + (if is_leap (n + 1) then 1 else 0)"
proof -
  let ?a4 = "if (n + 1) mod 4 = 0 then 1 else (0::int)"
  let ?a100 = "if (n + 1) mod 100 = 0 then 1 else (0::int)"
  let ?a400 = "if (n + 1) mod 400 = 0 then 1 else (0::int)"
  have "leap_days (n + 1) = (n div 4 + ?a4) - (n div 100 + ?a100) + (n div 400 + ?a400)"
    unfolding leap_days_def
    by (simp only: div_step [of 4 n] div_step [of 100 n] div_step [of 400 n] zero_less_numeral)
  also have "\<dots> = leap_days n + (?a4 - ?a100 + ?a400)"
    unfolding leap_days_def by (simp only: algebra_simps)
  also have "?a4 - ?a100 + ?a400 = (if is_leap (n + 1) then 1 else 0)"
    unfolding is_leap_def
    by (rule leap_indicator) (rule mod_400_100, assumption, rule mod_100_4, assumption)
  finally show ?thesis .
qed

lemma days_before_year_step:
  "days_before_year (y + 1) = days_before_year y + 365 + (if is_leap y then 1 else 0)"
proof -
  have "days_before_year (y + 1) = y * 365 + leap_days ((y - 1) + 1)"
    by (simp add: days_before_year_def leap_days_def)
  also have "\<dots> = y * 365 + leap_days (y - 1) + (if is_leap y then 1 else 0)"
    by (simp only: leap_days_step) simp
  also have "y * 365 + leap_days (y - 1) = days_before_year y + 365"
    by (simp add: days_before_year_def leap_days_def algebra_simps)
  finally show ?thesis .
qed

lemma days_before_year_mono: "a \<le> b \<Longrightarrow> days_before_year a \<le> days_before_year b"
proof (induction b rule: int_ge_induct)
  case base
  show ?case by simp
next
  case (step i)
  have "days_before_year i \<le> days_before_year (i + 1)"
    by (simp only: days_before_year_step) simp
  with step show ?case by simp
qed

lemma month_cases:
  fixes m :: int
  assumes "1 \<le> m" "m \<le> 12"
  shows "m = 1 \<or> m = 2 \<or> m = 3 \<or> m = 4 \<or> m = 5 \<or> m = 6 \<or> m = 7 \<or> m = 8 \<or> m = 9 \<or>
         m = 10 \<or> m = 11 \<or> m = 12"
  using assms by arith

lemma days_before_month_step:
  assumes "1 \<le> m" "m \<le> 11"
  shows "days_before_month y (m + 1) = days_before_month y m + days_in_month y m"
proof -
  from assms have "m = 1 \<or> m = 2 \<or> m = 3 \<or> m = 4 \<or> m = 5 \<or> m = 6 \<or> m = 7 \<or> m = 8 \<or> m = 9 \<or>
         m = 10 \<or> m = 11" by arith
  then show ?thesis
    by (elim disjE) (cases "is_leap y"; simp add: days_before_month_def days_in_month_def)+
qed

lemma days_in_month_pos: "28 \<le> days_in_month y m"
  by (simp add: days_in_month_def)

lemma days_before_month_mono:
  assumes "1 \<le> m" "m \<le> m'" "m' \<le> 12"
  shows "days_before_month y m \<le> days_before_month y m'"
  using assms(2,3)
proof (induction m' rule: int_ge_induct)
  case base
  show ?case by simp
next
  case (step i)
  then have "i \<le> 11" "1 \<le> i" using assms(1) by simp_all
  from days_before_month_step [OF this(2) this(1), of y] days_in_month_pos [of y i]
  have "days_before_month y i \<le> days_before_month y (i + 1)" by simp
  with step show ?case by simp
qed

lemma days_before_month_nonneg: "0 \<le> days_before_month y m"
  by (simp add: days_before_month_def)

lemma year_end:
  assumes "1 \<le> m" "m \<le> 12" "d \<le> days_in_month y m"
  shows "days_before_month y m + d \<le> 365 + (if is_leap y then 1 else 0)"
proof -
  have "days_before_month y m + days_in_month y m \<le> 365 + (if is_leap y then 1 else 0)"
    using month_cases [OF assms(1,2)]
    by (elim disjE) (cases "is_leap y"; simp add: days_before_month_def days_in_month_def)+
  with assms(3) show ?thesis by simp
qed

lemma toordinal_less:
  assumes "valid_date a" "valid_date b" "date_less a b"
  shows "toordinal a < toordinal b"
proof -
  from assms(1) have a: "1 \<le> month a" "month a \<le> 12" "1 \<le> day a"
      "day a \<le> days_in_month (year a) (month a)" by (simp_all add: valid_date_def)
  from assms(2) have b: "1 \<le> month b" "month b \<le> 12" "1 \<le> day b"
      "day b \<le> days_in_month (year b) (month b)" by (simp_all add: valid_date_def)
  consider (y) "year a < year b"
    | (m) "year a = year b" "month a < month b"
    | (d) "year a = year b" "month a = month b" "day a < day b"
    using assms(3) by (auto simp: date_less_def)
  then show ?thesis
  proof cases
    case y
    have "toordinal a \<le> days_before_year (year a) + (365 + (if is_leap (year a) then 1 else 0))"
      using year_end [OF a(1,2,4)] by (simp add: toordinal_def)
    also have "\<dots> = days_before_year (year a + 1)"
      by (simp only: days_before_year_step add.assoc)
    also have "\<dots> \<le> days_before_year (year b)"
      using y by (intro days_before_year_mono) simp
    also have "\<dots> < toordinal b"
      using days_before_month_nonneg [of "year b" "month b"] b(3) by (simp add: toordinal_def)
    finally show ?thesis .
  next
    case m
    then have "month a \<le> 11" using b(2) by simp
    from days_before_month_step [OF a(1) this, of "year a"] a(4)
    have "days_before_month (year a) (month a) + day a \<le> days_before_month (year a) (month a + 1)"
      by simp
    also have "\<dots> \<le> days_before_month (year a) (month b)"
      using m a b by (intro days_before_month_mono) simp_all
    finally show ?thesis using m b(3) by (simp add: toordinal_def)
  next
    case d
    then show ?thesis by (simp add: toordinal_def)
  qed
qed

lemma date_le_less: "date_le a b \<longleftrightarrow> date_less a b \<or> a = b"
  by (cases a; cases b) (auto simp: date_le_def date_less_def)

lemma toordinal_le:
  assumes "valid_date a" "valid_date b" "date_le a b"
  shows "toordinal a \<le> toordinal b"
  using assms toordinal_less [of a b] by (auto simp: date_le_less)

lemma date_total: "date_less a b \<or> date_le b a"
  by (auto simp: date_le_def date_less_def)

subsection \<open>Progress display\<close>

lemma TOTAL_SEMESTER_DAYS_eq: "TOTAL_SEMESTER_DAYS = 116"
  by (simp add: TOTAL_SEMESTER_DAYS_def SEMESTER_START_def SEMESTER_END_def days_between_def
      toordinal_def days_before_year_def days_before_month_def is_leap_def)

text \<open>
  Claim C4, at a date after the end date and at a date before the start date. With start
  2025-01-13 and end 2025-05-09 (116 days), \<^verbatim>\<open>update_display\<close> shows 139 elapsed days on
  2025-06-01 and 128 days left on 2025-01-01: neither count is held at the total.
\<close>

theorem update_display_exceeds_total_days:
  "map_sum id (map_option (\<lambda>d. (total_days d, days_elapsed d, days_left d)))
     (update_display (Some example_textbook) (Date 2025 6 1)) = Inr (Some (116, 139, 0))
   \<and> map_sum id (map_option (\<lambda>d. (total_days d, days_elapsed d, days_left d)))
     (update_display (Some example_textbook) (Date 2025 1 1)) = Inr (Some (116, 0, 128))"
  by (simp add: update_display_def example_textbook_def Textbook_def py_truediv_def Let_def
      date_le_def days_between_def toordinal_def days_before_year_def days_before_month_def
      is_leap_def)

text \<open>
  Claim C8: the display never divides by zero. \<^verbatim>\<open>update_display\<close> raises nothing for any
  selected textbook and any date; when the total number of days is zero its timeframe
  bar is 0, and when the textbook has zero pages its page bar is 0. \<^verbatim>\<open>update_widget\<close>,
  whose divisors are the constants 116 and 258, raises nothing either.
\<close>

theorem metrics_never_divide_by_zero:
  "(\<forall>e. update_display ctb today \<noteq> Inl e) \<and>
   (\<forall>d. update_display ctb today = Inr (Some d) \<longrightarrow>
      (total_days d = 0 \<longrightarrow> semester_value d = 0) \<and>
      (\<forall>tb. ctb = Some tb \<and> total_pages tb = 0 \<longrightarrow> textbook_value d = 0)) \<and>
   (\<forall>cp e. update_widget cp today \<noteq> Inl e)"
proof (intro conjI allI)
  fix e show "update_display ctb today \<noteq> Inl e"
    by (simp add: update_display_def py_truediv_def Let_def split: option.split)
next
  fix d
  show "update_display ctb today = Inr (Some d) \<longrightarrow>
      (total_days d = 0 \<longrightarrow> semester_value d = 0) \<and>
      (\<forall>tb. ctb = Some tb \<and> total_pages tb = 0 \<longrightarrow> textbook_value d = 0)"
    by (auto simp add: update_display_def py_truediv_def Let_def split: option.splits if_splits)
next
  fix cp e
  show "update_widget cp today \<noteq> Inl e"
    by (simp add: update_widget_def py_truediv_def Let_def TOTAL_SEMESTER_DAYS_eq
        TOTAL_PAGES_def split: prod.split)
qed

text \<open>
  Witness for C8: a textbook of zero pages whose start and end dates coincide. Both bars
  are 0.
\<close>

theorem metrics_never_divide_by_zero_witness:
  "update_display (Some (Textbook ''a'' ''b'' 0 [] (Date 2025 1 13) (Date 2025 1 13) 0))
     (Date 2025 3 1)
   = Inr (Some \<lparr>total_days = 0, days_elapsed = 47, days_left = 0,
               semester_value = 0, textbook_value = 0, pace = None\<rparr>)"
proof -
  let ?tb = "Textbook ''a'' ''b'' 0 [] (Date 2025 1 13) (Date 2025 1 13) 0"
  have ev: "update_display (Some ?tb) (Date 2025 3 1)
      = Inr (Some \<lparr>total_days = 0, days_elapsed = 47, days_left = 0,
               semester_value = 0, textbook_value = 0, pace = None\<rparr>)"
    by (simp add: update_display_def Textbook_def py_truediv_def Let_def
      date_le_def days_between_def toordinal_def days_before_year_def days_before_month_def
      is_leap_def)
  from metrics_never_divide_by_zero [of "Some ?tb" "Date 2025 3 1"]
  have "\<forall>d. update_display (Some ?tb) (Date 2025 3 1) = Inr (Some d) \<longrightarrow>
      (total_days d = 0 \<longrightarrow> semester_value d = 0)"
    by blast
  with ev show ?thesis by simp
qed

lemma date_le_not_less: "date_le a b \<Longrightarrow> \<not> date_less b a"
  by (auto simp: date_le_def date_less_def)

lemma semester_dates_valid: "valid_date SEMESTER_START" "valid_date SEMESTER_END"
  by (simp_all add: SEMESTER_START_def SEMESTER_END_def valid_date_def days_in_month_def is_leap_def)

text \<open>
  For the record: \<^verbatim>\<open>update_widget\<close> of the QFT tracker holds both day counts between 0
  and the total on every date, and they add up to the total within the semester.
\<close>

lemma update_widget_days:
  "\<exists>w. update_widget cp today = Inr w \<and>
     (w_days_elapsed w, w_days_left w) =
       (if date_less today SEMESTER_START then (0, TOTAL_SEMESTER_DAYS)
        else if date_less SEMESTER_END today then (TOTAL_SEMESTER_DAYS, 0)
        else (days_between today SEMESTER_START, days_between SEMESTER_END today))"
  by (simp add: update_widget_def py_truediv_def Let_def TOTAL_SEMESTER_DAYS_eq
        TOTAL_PAGES_def split: prod.split)

lemma update_widget_clamped:
  assumes "valid_date today" "update_widget cp today = Inr w"
  shows "0 \<le> w_days_elapsed w \<and> w_days_elapsed w \<le> TOTAL_SEMESTER_DAYS \<and>
         0 \<le> w_days_left w \<and> w_days_left w \<le> TOTAL_SEMESTER_DAYS \<and>
         (date_le SEMESTER_START today \<and> date_le today SEMESTER_END \<longrightarrow>
            w_days_elapsed w + w_days_left w = TOTAL_SEMESTER_DAYS)"
proof -
  from update_widget_days [of cp today] assms(2)
  have w: "(w_days_elapsed w, w_days_left w) =
       (if date_less today SEMESTER_START then (0, TOTAL_SEMESTER_DAYS)
        else if date_less SEMESTER_END today then (TOTAL_SEMESTER_DAYS, 0)
        else (days_between today SEMESTER_START, days_between SEMESTER_END today))"
    by auto
  from w have e: "w_days_elapsed w =
       (if date_less today SEMESTER_START then 0
        else if date_less SEMESTER_END today then TOTAL_SEMESTER_DAYS
        else days_between today SEMESTER_START)"
    and l: "w_days_left w =
       (if date_less today SEMESTER_START then TOTAL_SEMESTER_DAYS
        else if date_less SEMESTER_END today then 0
        else days_between SEMESTER_END today)"
    by (auto split: if_splits)
  have t: "0 \<le> TOTAL_SEMESTER_DAYS" by (simp add: TOTAL_SEMESTER_DAYS_eq)
  show ?thesis
  proof (cases "date_less today SEMESTER_START \<or> date_less SEMESTER_END today")
    case True
    then show ?thesis using e l t by (auto dest: date_le_not_less)
  next
    case False
    then have "date_le SEMESTER_START today" "date_le today SEMESTER_END"
      using date_total [of today SEMESTER_START] date_total [of SEMESTER_END today] by auto
    then have "toordinal SEMESTER_START \<le> toordinal today" "toordinal today \<le> toordinal SEMESTER_END"
      using assms(1) semester_dates_valid by (auto intro: toordinal_le)
    then show ?thesis using False e l
      by (simp add: days_between_def TOTAL_SEMESTER_DAYS_def)
  qed
qed

text \<open>
  \<^verbatim>\<open>update_display\<close> keeps both counts at 0 or above, and within the timeframe they
  add up to the total and stay below it. After the end date the elapsed days exceed
  the total; before the start date the days left do.
\<close>

lemma update_display_days:
  "\<exists>d. update_display (Some tb) today = Inr (Some d) \<and>
     total_days d = days_between (end_date tb) (start_date tb) \<and>
     days_elapsed d = (if date_le (start_date tb) today
                       then max 0 (days_between today (start_date tb)) else 0) \<and>
     days_left d = (if date_le today (end_date tb)
                    then max 0 (days_between (end_date tb) today) else 0)"
  by (simp add: update_display_def py_truediv_def Let_def)

lemma update_display_in_range:
  assumes "valid_date (start_date tb)" "valid_date (end_date tb)" "valid_date today"
    and "update_display (Some tb) today = Inr (Some d)"
  shows "0 \<le> days_elapsed d \<and> 0 \<le> days_left d \<and>
         (date_le (start_date tb) today \<and> date_le today (end_date tb) \<longrightarrow>
            days_elapsed d + days_left d = total_days d \<and>
            days_elapsed d \<le> total_days d \<and> days_left d \<le> total_days d) \<and>
         (date_less (end_date tb) today \<and> date_le (start_date tb) (end_date tb) \<longrightarrow>
            total_days d < days_elapsed d) \<and>
         (date_less today (start_date tb) \<and> date_le (start_date tb) (end_date tb) \<longrightarrow>
            total_days d < days_left d)"
proof -
  from update_display_days [of tb today] assms(4)
  have d: "total_days d = days_between (end_date tb) (start_date tb)"
     "days_elapsed d = (if date_le (start_date tb) today
                       then max 0 (days_between today (start_date tb)) else 0)"
     "days_left d = (if date_le today (end_date tb)
                    then max 0 (days_between (end_date tb) today) else 0)"
    by auto
  have le: "\<And>a b. valid_date a \<Longrightarrow> valid_date b \<Longrightarrow> date_le a b \<Longrightarrow> toordinal a \<le> toordinal b"
    by (rule toordinal_le)
  have less: "\<And>a b. valid_date a \<Longrightarrow> valid_date b \<Longrightarrow> date_less a b \<Longrightarrow> toordinal a < toordinal b"
    by (rule toordinal_less)
  have lt_le: "\<And>a b. date_less a b \<Longrightarrow> date_le a b"
    by (auto simp: date_le_def date_less_def)
  show ?thesis
  proof (intro conjI impI)
    show "0 \<le> days_elapsed d" by (simp add: d)
    show "0 \<le> days_left d" by (simp add: d)
  next
    assume r: "date_le (start_date tb) today \<and> date_le today (end_date tb)"
    with le assms have o: "toordinal (start_date tb) \<le> toordinal today"
        "toordinal today \<le> toordinal (end_date tb)" by auto
    with r show "days_elapsed d + days_left d = total_days d" "days_elapsed d \<le> total_days d"
        "days_left d \<le> total_days d"
      by (simp_all add: d days_between_def)
  next
    assume r: "date_less (end_date tb) today \<and> date_le (start_date tb) (end_date tb)"
    with less le assms have o: "toordinal (end_date tb) < toordinal today"
        "toordinal (start_date tb) \<le> toordinal (end_date tb)" by auto
    have "date_le (start_date tb) today"
      using r by (auto simp: date_le_def date_less_def)
    with o show "total_days d < days_elapsed d" by (simp add: d days_between_def)
  next
    assume r: "date_less today (start_date tb) \<and> date_le (start_date tb) (end_date tb)"
    with less le assms have o: "toordinal today < toordinal (start_date tb)"
        "toordinal (start_date tb) \<le> toordinal (end_date tb)" by auto
    have "date_le today (end_date tb)"
      using r by (auto simp: date_le_def date_less_def)
    with o show "total_days d < days_left d" by (simp add: d days_between_def)
  qed
qed

subsection \<open>Current page\<close>

text \<open>
  Claim C6: when the text of the page entry is not an integer between 0 and the total
  number of pages, \<^verbatim>\<open>update_page\<close> leaves the selected textbook as it was, current page
  included; the QFT \<^verbatim>\<open>update_page\<close> keeps the current page and shows one of its two
  warnings.
\<close>

theorem update_page_rejects_invalid:
  "(\<not> (\<exists>n. py_int page_entry = Inr n \<and> 0 \<le> n \<and> n \<le> total_pages tb)
      \<longrightarrow> update_page page_entry (Some tb) = Some tb)
   \<and> (\<not> (\<exists>n. py_int page_entry = Inr n \<and> 0 \<le> n \<and> n \<le> TOTAL_PAGES)
      \<longrightarrow> update_page_QFT page_entry cur_page
            \<in> {(cur_page, Warn_out_of_range), (cur_page, Warn_not_a_number)})"
  by (auto simp: update_page_def update_page_QFT_def split: sum.splits)

lemmas int_eval = py_int_def int_strip_def is_int_space_def int_max_str_digits_def
  is_digit_def digit_val_def

text \<open>Witness for C6: page 300 of 258, and the text 12.5.\<close>

theorem update_page_rejects_invalid_witness:
  "\<not> (\<exists>n. py_int ''300'' = Inr n \<and> 0 \<le> n \<and> n \<le> total_pages example_textbook)
   \<and> update_page ''300'' (Some example_textbook) = Some example_textbook
   \<and> \<not> (\<exists>n. py_int ''12.5'' = Inr n \<and> 0 \<le> n \<and> n \<le> TOTAL_PAGES)
   \<and> update_page_QFT ''12.5'' 80 \<in> {(80, Warn_out_of_range), (80, Warn_not_a_number)}"
proof -
  have a: "py_int ''300'' = Inr 300"
    by (simp add: int_eval)
  have b: "py_int ''12.5'' = Inl ValueError"
    by (simp add: int_eval)
  have h1: "\<not> (\<exists>n. py_int ''300'' = Inr n \<and> 0 \<le> n \<and> n \<le> total_pages example_textbook)"
    by (simp add: a example_textbook_def Textbook_def)
  have h2: "\<not> (\<exists>n. py_int ''12.5'' = Inr n \<and> 0 \<le> n \<and> n \<le> TOTAL_PAGES)"
    by (simp add: b)
  from update_page_rejects_invalid [of "''300''" example_textbook] h1
  have 1: "update_page ''300'' (Some example_textbook) = Some example_textbook"
    by blast
  from update_page_rejects_invalid [of "''12.5''" _ 80] h2
  have 2: "update_page_QFT ''12.5'' 80 \<in> {(80, Warn_out_of_range), (80, Warn_not_a_number)}"
    by blast
  from h1 h2 1 2 show ?thesis by blast
qed

subsection \<open>Completion entries and documents\<close>



text \<open>
  Claim C9: for the selected problem row, \<^verbatim>\<open>upload_document\<close> attaches a document only
  if the problem has an entry marked complete. If it has none, or has a \<^verbatim>\<open>dict\<close> that
  is not marked complete, the call answers "Not Complete" and the completion map is the
  one before the call; the map is unchanged on every outcome other than success.
\<close>

theorem upload_needs_completion:
  "has_parent it \<and> split_ws (item_text it) = prob # rest \<longrightarrow>
     ((\<exists>cp'. upload_document (it # its) file_path ext copy_ok cp = Inr (cp', Upload_successful))
         \<longrightarrow> marked_complete cp prob) \<and>
     (\<not> marked_complete cp prob \<and> (\<forall>v. map_of cp prob = Some v \<longrightarrow> (\<exists>kvs. v = JObj kvs))
         \<longrightarrow> upload_document (it # its) file_path ext copy_ok cp = Inr (cp, Not_complete)) \<and>
     (\<forall>cp' out. upload_document (it # its) file_path ext copy_ok cp = Inr (cp', out) \<and>
          out \<noteq> Upload_successful \<longrightarrow> cp' = cp)"
  by (auto simp: upload_document_def first_token_def marked_complete_def dict_get_def
       split: option.splits json.splits if_splits)

text \<open>
  Witness for C9: problem 3.2 is complete and gets its document; problem 3.3a has no
  entry and is refused.
\<close>

theorem upload_needs_completion_witness:
  "(has_parent row_done \<and>
    split_ws (item_text row_done) = ''3.2'' # [[CHR 0xE2, CHR 0x9C, CHR 0x93], ''(doc)'']) \<and>
   upload_document [row_done] ''/home/u/sol.txt'' ''.txt'' True example_completed
     = Inr ([(''3.1a'', JObj [(''complete'', JBool True), (''document'', JNull)]),
             (''3.2'', JObj [(''complete'', JBool True),
                             (''document'', JStr ''uploaded_documents/3.2.txt'')])],
            Upload_successful) \<and>
   marked_complete example_completed ''3.2'' \<and>
   (has_parent (Item True ''3.3a'' [''3.3a'']) \<and>
    split_ws (item_text (Item True ''3.3a'' [''3.3a''])) = ''3.3a'' # []) \<and>
   \<not> marked_complete example_completed ''3.3a'' \<and>
   map_of example_completed ''3.3a'' = None \<and>
   upload_document [Item True ''3.3a'' [''3.3a'']] ''/home/u/sol.txt'' ''.txt'' True example_completed
     = Inr (example_completed, Not_complete)"
proof -
  have h1: "has_parent row_done \<and>
    split_ws (item_text row_done) = ''3.2'' # [[CHR 0xE2, CHR 0x9C, CHR 0x93], ''(doc)'']"
    by (simp add: row_done_def split_ws.simps is_space_def)
  have ev: "upload_document [row_done] ''/home/u/sol.txt'' ''.txt'' True example_completed
     = Inr ([(''3.1a'', JObj [(''complete'', JBool True), (''document'', JNull)]),
             (''3.2'', JObj [(''complete'', JBool True),
                             (''document'', JStr ''uploaded_documents/3.2.txt'')])],
            Upload_successful)"
    by (simp add: upload_document_def row_done_def first_token_def split_ws.simps is_space_def
        example_completed_def dict_get_def path_join_def UPLOAD_DIR_def startswith_def)
  have ex: "\<exists>cp'. upload_document [row_done] ''/home/u/sol.txt'' ''.txt'' True example_completed
     = Inr (cp', Upload_successful)"
    using ev by blast
  have mc: "marked_complete example_completed ''3.2''"
    by (rule upload_needs_completion [of row_done "''3.2''" _ "[]" "''/home/u/sol.txt''" "''.txt''"
          True example_completed, THEN mp, OF h1, THEN conjunct1, THEN mp, OF ex])
  have h2: "has_parent (Item True ''3.3a'' [''3.3a'']) \<and>
    split_ws (item_text (Item True ''3.3a'' [''3.3a''])) = ''3.3a'' # []"
    by (simp add: split_ws.simps is_space_def)
  have n: "\<not> marked_complete example_completed ''3.3a''"
    by (simp add: marked_complete_def example_completed_def)
  have ws: "\<forall>v. map_of example_completed ''3.3a'' = Some v \<longrightarrow> (\<exists>kvs. v = JObj kvs)"
    by (simp add: example_completed_def)
  have nc: "upload_document [Item True ''3.3a'' [''3.3a'']] ''/home/u/sol.txt'' ''.txt'' True
       example_completed = Inr (example_completed, Not_complete)"
    by (rule upload_needs_completion [of "Item True ''3.3a'' [''3.3a'']" "''3.3a''" "[]" "[]"
          "''/home/u/sol.txt''" "''.txt''" True example_completed,
          THEN mp, OF h2, THEN conjunct2, THEN conjunct1, THEN mp, OF conjI [OF n ws]])
  have no: "map_of example_completed ''3.3a'' = None"
    by (simp add: example_completed_def)
  show ?thesis
    by (rule conjI [OF h1 conjI [OF ev conjI [OF mc conjI [OF h2 conjI [OF n conjI [OF no nc]]]]]])
qed

subsection \<open>The parser: characters and tokens\<close>

lemma space_not_upper: "is_space c \<Longrightarrow> c \<notin> set ''ABCDEFGHIJKLMNOPQRSTUVWXYZ''"
  by (auto simp: is_space_def)

lemma lower_char_id: 
  assumes "c \<notin> set ''ABCDEFGHIJKLMNOPQRSTUVWXYZ''"
  shows "lower_char c = c"
proof -
  have "length ''ABCDEFGHIJKLMNOPQRSTUVWXYZ'' = length ''abcdefghijklmnopqrstuvwxyz''"
    by simp
  then have "map_of (zip ''ABCDEFGHIJKLMNOPQRSTUVWXYZ'' ''abcdefghijklmnopqrstuvwxyz'') c = None"
    using assms by (metis map_of_zip_is_None)
  then show ?thesis unfolding lower_char_def by (simp only: option.case)
qed

lemma space_lower: "is_space c \<Longrightarrow> lower_char c = c"
  by (rule lower_char_id [OF space_not_upper])

lemma lower_char_cases:
  "lower_char c = c \<or> (lower_char c \<in> set ''abcdefghijklmnopqrstuvwxyz'' \<and>
                         c \<in> set ''ABCDEFGHIJKLMNOPQRSTUVWXYZ'')"
proof (cases "map_of (zip ''ABCDEFGHIJKLMNOPQRSTUVWXYZ'' ''abcdefghijklmnopqrstuvwxyz'') c")
  case None
  then show ?thesis unfolding lower_char_def by (simp only: option.case simp_thms)
next
  case (Some l)
  then have "(c, l) \<in> set (zip ''ABCDEFGHIJKLMNOPQRSTUVWXYZ'' ''abcdefghijklmnopqrstuvwxyz'')"
    by (rule map_of_SomeD)
  then have "c \<in> set ''ABCDEFGHIJKLMNOPQRSTUVWXYZ''" "l \<in> set ''abcdefghijklmnopqrstuvwxyz''"
    by (rule set_zip_leftD, rule set_zip_rightD)
  moreover have "lower_char c = l" using Some unfolding lower_char_def by (simp only: option.case)
  ultimately show ?thesis by blast
qed

lemma letter_not_space: "x \<in> set ''abcdefghijklmnopqrstuvwxyz'' \<Longrightarrow> \<not> is_space x"
  by (auto simp: is_space_def)

lemma lower_char_is_space: "is_space (lower_char c) \<Longrightarrow> is_space c"
  by (metis lower_char_cases letter_not_space)

lemma blank_is_space: "is_space (CHR '' '')"
  by (simp add: is_space_def)

lemma lower_char_blank: "lower_char c = CHR '' '' \<longleftrightarrow> c = CHR '' ''"
  by (metis lower_char_cases letter_not_space blank_is_space space_lower)


lemma strip_Nil_or:
  "py_strip s = [] \<or> (\<not> is_space (hd (py_strip s)) \<and> \<not> is_space (last (py_strip s)))"
proof -
  let ?t = "dropWhile is_space s"
  let ?u = "dropWhile is_space (rev ?t)"
  have eq: "py_strip s = rev ?u" by (simp add: py_strip_def)
  show ?thesis
  proof (cases "?u = []")
    case True then show ?thesis by (simp add: eq)
  next
    case False
    then have hu: "\<not> is_space (hd ?u)" by (rule hd_dropWhile)
    from False have "rev ?t \<noteq> []" by (metis dropWhile.simps(1))
    then have tne: "?t \<noteq> []" by simp
    then have ht: "\<not> is_space (hd ?t)" by (rule hd_dropWhile)
    have "rev ?t = takeWhile is_space (rev ?t) @ ?u"
      by (simp only: takeWhile_dropWhile_id)
    then have "last (rev ?t) = last (takeWhile is_space (rev ?t) @ ?u)" by simp
    also have "\<dots> = last ?u" using False by (simp only: last_append if_False)
    finally have "last ?u = last (rev ?t)" by simp
    also have "\<dots> = hd ?t" using tne by (simp add: last_rev)
    finally have "last ?u = hd ?t" .
    with ht hu False show ?thesis
      by (simp add: eq hd_rev last_rev)
  qed
qed

lemma split_ws_skip: "is_space d \<Longrightarrow> split_ws (d # ys) = split_ws ys"
  by (subst split_ws.simps, subst (2) split_ws.simps) simp

lemma split_ws_token:
  assumes "xs \<noteq> []" "\<forall>c\<in>set xs. \<not> is_space c" "is_space d"
  shows "split_ws (xs @ d # ys) = xs # split_ws ys"
proof -
  obtain c cs where xs: "xs = c # cs" using assms(1) by (cases xs) auto
  have c: "\<not> is_space c" and cs: "\<forall>x\<in>set cs. \<not> is_space x" using assms(2) xs by auto
  have "split_ws (xs @ d # ys) = takeWhile (\<lambda>x. \<not> is_space x) (c # cs @ d # ys)
          # split_ws (dropWhile (\<lambda>x. \<not> is_space x) (cs @ d # ys))"
    by (subst split_ws.simps) (simp add: xs c)
  also have "takeWhile (\<lambda>x. \<not> is_space x) (c # cs @ d # ys) = c # cs"
    using c cs assms(3) by simp
  also have "dropWhile (\<lambda>x. \<not> is_space x) (cs @ d # ys) = d # ys"
    using cs assms(3) by simp
  finally show ?thesis using assms(3) by (simp add: xs split_ws_skip)
qed

lemma split_ws_first:
  assumes "list_ex (\<lambda>c. \<not> is_space c) ys"
  shows "\<exists>rest. split_ws ys = takeWhile (\<lambda>c. \<not> is_space c) (dropWhile is_space ys) # rest
      \<and> takeWhile (\<lambda>c. \<not> is_space c) (dropWhile is_space ys) \<noteq> []"
proof -
  from assms have "dropWhile is_space ys \<noteq> []"
    by (auto simp: list_ex_iff dropWhile_eq_Nil_conv)
  then obtain c cs where d: "dropWhile is_space ys = c # cs"
    by (cases "dropWhile is_space ys") auto
  then have "\<not> is_space c" by (metis hd_dropWhile list.sel(1) list.distinct(1))
  then show ?thesis by (subst split_ws.simps) (simp add: d)
qed

lemma chapter_word_not_space: "x \<in> set ''chapter'' \<Longrightarrow> \<not> is_space x"
  by (auto simp: is_space_def)

lemma lower_word_not_space:
  assumes "py_lower xs = ''chapter''" "c \<in> set xs"
  shows "\<not> is_space c"
proof
  assume sp: "is_space c"
  have "lower_char c \<in> set (py_lower xs)" using assms(2) by (simp add: py_lower_def)
  then have "c \<in> set ''chapter''" using sp assms(1) by (simp only: space_lower)
  with sp chapter_word_not_space show False by blast
qed

lemma chapter_line_parts:
  assumes "is_chapter_line line"
  shows "7 < length line" "py_lower (take 7 line) = ''chapter''" "line ! 7 = CHR '' ''"
    "line = take 7 line @ CHR '' '' # drop 8 line"
proof -
  from assms have t0: "take (length ''chapter '') (py_lower line) = ''chapter ''"
    unfolding is_chapter_line_def startswith_def .
  have l8: "length ''chapter '' = 8" by simp
  from t0 have t: "take 8 (map lower_char line) = ''chapter ''"
    unfolding l8 py_lower_def .
  then have "length (take 8 (map lower_char line)) = 8" by simp
  then show len: "7 < length line" by simp
  have "take 7 (take 8 (map lower_char line)) = ''chapter''" by (simp only: t) simp
  then show "py_lower (take 7 line) = ''chapter''"
    by (simp add: py_lower_def take_map)
  have "take 8 (map lower_char line) ! 7 = CHR '' ''" by (simp only: t) simp
  then have "lower_char (line ! 7) = CHR '' ''" using len by simp
  then show b: "line ! 7 = CHR '' ''" by (simp only: lower_char_blank)
  from len have "line = take 7 line @ line ! 7 # drop (Suc 7) line"
    by (rule id_take_nth_drop)
  then show "line = take 7 line @ CHR '' '' # drop 8 line" using b by simp
qed

lemma chapter_line_iff:
  assumes "line = py_strip raw"
  shows "is_chapter_line line \<longleftrightarrow> spec_chapter_line (\<lambda>c. c = CHR '' '') line"
proof
  assume c: "is_chapter_line line"
  note p = chapter_line_parts [OF c]
  from p(1) have ne: "line \<noteq> []" by auto
  with strip_Nil_or [of raw] assms have l: "\<not> is_space (last line)" by simp
  have "last line = last (take 7 line @ CHR '' '' # drop 8 line)" using p(4) by simp
  also have "\<dots> = (if drop 8 line = [] then CHR '' '' else last (drop 8 line))" by simp
  finally have eq: "last line = (if drop 8 line = [] then CHR '' '' else last (drop 8 line))" .
  have d: "drop 8 line \<noteq> []"
  proof
    assume "drop 8 line = []"
    with eq have "last line = CHR '' ''" by (simp only: if_True simp_thms)
    with l blank_is_space show False by metis
  qed
  with eq have "last line = last (drop 8 line)" by (simp only: if_False simp_thms)
  with l have "\<not> is_space (last (drop 8 line))" by metis
  moreover have "last (drop 8 line) \<in> set (drop 8 line)" using d by (rule last_in_set)
  ultimately have "list_ex (\<lambda>c. \<not> is_space c) (drop 8 line)"
    unfolding list_ex_iff by blast
  with p show "spec_chapter_line (\<lambda>c. c = CHR '' '') line"
    by (simp add: spec_chapter_line_def)
next
  assume s: "spec_chapter_line (\<lambda>c. c = CHR '' '') line"
  then have len: "7 < length line" and w: "map lower_char (take 7 line) = ''chapter''"
    and b: "line ! 7 = CHR '' ''"
    by (simp_all add: spec_chapter_line_def py_lower_def)
  from len have len': "7 < length (map lower_char line)" by simp
  have "take (Suc 7) (map lower_char line)
      = take 7 (map lower_char line) @ [map lower_char line ! 7]"
    using len' by (rule take_Suc_conv_app_nth)
  also have "\<dots> = ''chapter'' @ [lower_char (CHR '' '')]"
    using len w b by (simp add: take_map)
  also have "\<dots> = ''chapter ''" by (simp add: lower_char_def)
  finally have "take (Suc 7) (map lower_char line) = ''chapter ''" .
  then have "take 8 (map lower_char line) = ''chapter ''" by simp
  moreover have "length ''chapter '' = 8" by simp
  ultimately show "is_chapter_line line"
    unfolding is_chapter_line_def startswith_def py_lower_def by (simp only:)
qed

lemma chapter_line_tokens:
  assumes "line = py_strip raw" "is_chapter_line line"
  shows "\<exists>rest. split_ws line = take 7 line # spec_key line # rest" "spec_key line \<noteq> []"
proof -
  note p = chapter_line_parts [OF assms(2)]
  from chapter_line_iff [OF assms(1)] assms(2)
  have ex: "list_ex (\<lambda>c. \<not> is_space c) (drop 8 line)"
    by (simp add: spec_chapter_line_def)
  have "drop 7 line = line ! 7 # drop (Suc 7) line"
    using p(1) by (rule Cons_nth_drop_Suc [symmetric])
  then have key: "spec_key line
      = takeWhile (\<lambda>c. \<not> is_space c) (dropWhile is_space (drop 8 line))"
    using p(3) blank_is_space by (simp add: spec_key_def)
  from p(1) have ne: "take 7 line \<noteq> []" by auto
  have ns: "\<forall>c\<in>set (take 7 line). \<not> is_space c"
    using lower_word_not_space [OF p(2)] by blast
  have "split_ws (take 7 line @ CHR '' '' # drop 8 line) = take 7 line # split_ws (drop 8 line)"
    by (rule split_ws_token [OF ne ns blank_is_space])
  then have sp: "split_ws line = take 7 line # split_ws (drop 8 line)"
    using p(4) by simp
  from split_ws_first [OF ex] key sp
  show "\<exists>rest. split_ws line = take 7 line # spec_key line # rest" "spec_key line \<noteq> []"
    by auto
qed

lemma second_token_key:
  assumes "line = py_strip raw" "is_chapter_line line"
  shows "second_token line = spec_key line"
  using chapter_line_tokens(1) [OF assms] by (auto simp: second_token_def)

subsection \<open>The parser: the loop and the blocks\<close>

lemma block_problems_chapter: "chap l \<Longrightarrow> block_problems chap (l # ls) = []"
  by (simp add: block_problems_def)

lemma block_problems_empty_line:
  "\<not> chap [] \<Longrightarrow> block_problems chap ([] # ls) = block_problems chap ls"
  by (simp add: block_problems_def)

lemma block_problems_line:
  "\<not> chap l \<Longrightarrow> l \<noteq> [] \<Longrightarrow>
     block_problems chap (l # ls) = spec_pieces l @ block_problems chap ls"
  by (simp add: block_problems_def)

lemma parse_line_chapter:
  assumes "is_chapter_line (py_strip raw)"
  shows "parse_line raw (P, cur)
     = Inr (AList.update (second_token (py_strip raw)) [] P, Some (second_token (py_strip raw)))"
proof -
  from chapter_line_tokens(1) [OF refl assms]
  obtain rest where "split_ws (py_strip raw)
      = take 7 (py_strip raw) # spec_key (py_strip raw) # rest" by blast
  then show ?thesis using assms
    by (simp add: parse_line_def Let_def is_chapter_line_def second_token_def)
qed

lemma parse_line_other:
  assumes "\<not> is_chapter_line (py_strip raw)"
  shows "parse_line raw (P, None) = Inr (P, None)"
    and "py_strip raw = [] \<Longrightarrow> parse_line raw (P, Some ch) = Inr (P, Some ch)"
    and "py_strip raw \<noteq> [] \<Longrightarrow> ch \<noteq> [] \<Longrightarrow> map_of P ch = Some ps \<Longrightarrow>
         parse_line raw (P, Some ch)
           = Inr (AList.update ch (ps @ spec_pieces (py_strip raw)) P, Some ch)"
  using assms
  by (simp_all add: parse_line_def Let_def is_chapter_line_def spec_pieces_def)

lemma parse_lines_blocks:
  assumes "case cur of None \<Rightarrow> True | Some ch \<Rightarrow> ch \<noteq> [] \<and> map_of P ch = Some ps"
  shows "\<exists>cur'. parse_lines ls (P, cur)
     = Inr (foldl (\<lambda>d b. AList.update (fst b) (snd b) d)
              (case cur of None \<Rightarrow> P
               | Some ch \<Rightarrow> AList.update ch
                    (ps @ block_problems is_chapter_line (map py_strip ls)) P)
              (chapter_blocks is_chapter_line second_token (map py_strip ls)),
            cur')"
  using assms
proof (induction ls arbitrary: P cur ps)
  case Nil
  then show ?case
    by (auto simp: block_problems_def AList.update_triv split: option.splits)
next
  case (Cons l ls)
  let ?line = "py_strip l"
  let ?S = "map py_strip ls"
  show ?case
  proof (cases "is_chapter_line ?line")
    case True
    let ?k = "second_token ?line"
    from chapter_line_tokens(2) [OF refl True] second_token_key [OF refl True]
    have kne: "?k \<noteq> []" by simp
    have inv: "case Some ?k of None \<Rightarrow> True
        | Some ch \<Rightarrow> ch \<noteq> [] \<and> map_of (AList.update ?k [] P) ch = Some []"
      using kne by (simp add: AList.update_conv)
    from Cons.IH [OF inv] obtain cur' where
      ih: "parse_lines ls (AList.update ?k [] P, Some ?k)
        = Inr (foldl (\<lambda>d b. AList.update (fst b) (snd b) d)
                 (AList.update ?k ([] @ block_problems is_chapter_line ?S) (AList.update ?k [] P))
                 (chapter_blocks is_chapter_line second_token ?S), cur')"
      by auto
    have lead: "(case cur of None \<Rightarrow> P
               | Some ch \<Rightarrow> AList.update ch
                    (ps @ block_problems is_chapter_line (?line # ?S)) P) = P"
      using Cons.prems True
      by (auto simp: block_problems_chapter AList.update_triv split: option.splits)
    show ?thesis
      using True ih
      by (simp only: lead list.map parse_lines.simps parse_line_chapter [OF True] sum.case
            chapter_blocks.simps if_True foldl_Cons fst_conv snd_conv append_Nil
            AList.update_last) blast
  next
    case False
    note nc = False
    show ?thesis
    proof (cases cur)
      case None
      from Cons.IH [where cur = None and P = P and ps = ps] obtain cur' where
        ih: "parse_lines ls (P, None)
          = Inr (foldl (\<lambda>d b. AList.update (fst b) (snd b) d) P
                 (chapter_blocks is_chapter_line second_token ?S), cur')"
        by auto
      show ?thesis using None nc ih
        by (simp add: parse_line_other(1) [OF nc])
    next
      case (Some ch)
      with Cons.prems have ch: "ch \<noteq> []" and m: "map_of P ch = Some ps" by simp_all
      show ?thesis
      proof (cases "?line = []")
        case True
        have ne: "\<not> is_chapter_line []" using nc True by simp
        from Cons.IH [where cur = "Some ch" and P = P and ps = ps] ch m obtain cur' where
          ih: "parse_lines ls (P, Some ch)
            = Inr (foldl (\<lambda>d b. AList.update (fst b) (snd b) d)
                   (AList.update ch (ps @ block_problems is_chapter_line ?S) P)
                   (chapter_blocks is_chapter_line second_token ?S), cur')"
          by auto
        show ?thesis using Some nc True ih ne
          by (simp add: parse_line_other(2) [OF nc True] block_problems_empty_line)
      next
        case False
        let ?P = "AList.update ch (ps @ spec_pieces ?line) P"
        have inv: "case Some ch of None \<Rightarrow> True
            | Some c \<Rightarrow> c \<noteq> [] \<and> map_of ?P c = Some (ps @ spec_pieces ?line)"
          using ch by (simp add: AList.update_conv)
        from Cons.IH [OF inv] obtain cur' where
          ih: "parse_lines ls (?P, Some ch)
            = Inr (foldl (\<lambda>d b. AList.update (fst b) (snd b) d)
                   (AList.update ch ((ps @ spec_pieces ?line) @ block_problems is_chapter_line ?S) ?P)
                   (chapter_blocks is_chapter_line second_token ?S), cur')"
          by auto
        show ?thesis using Some nc False ih
          by (simp add: parse_line_other(3) [OF nc False ch m] block_problems_line)
      qed
    qed
  qed
qed

lemma parse_problems_blocks:
  "parse_problems text
     = Inr (assemble (chapter_blocks is_chapter_line second_token
              (map py_strip (split_on newline (py_strip text)))))"
proof -
  from parse_lines_blocks [where cur = None and P = "[]" and ls = "split_on newline (py_strip text)"]
  obtain cur' where "parse_lines (split_on newline (py_strip text)) ([], None)
     = Inr (assemble (chapter_blocks is_chapter_line second_token
              (map py_strip (split_on newline (py_strip text)))), cur')"
    by (auto simp: assemble_def)
  then show ?thesis by (simp add: parse_problems_def)
qed

lemma split_on_not_Nil: "split_on sep xs \<noteq> []"
  by (induction xs) (auto split: list.splits)

lemma strip_Cons_space: "is_space c \<Longrightarrow> py_strip (c # l) = py_strip l"
  by (simp add: py_strip_def)

lemma strip_snoc_space:
  assumes "is_space c"
  shows "py_strip (l @ [c]) = py_strip l"
proof (cases "\<forall>x\<in>set l. is_space x")
  case True
  then have "dropWhile is_space (l @ [c]) = []" "dropWhile is_space l = []"
    using assms by auto
  then show ?thesis by (simp only: py_strip_def)
next
  case False
  then have "dropWhile is_space (l @ [c]) = dropWhile is_space l @ [c]"
    by (auto simp: dropWhile_append1)
  then show ?thesis using assms by (simp add: py_strip_def)
qed

lemma strip_Nil [simp]: "py_strip [] = []"
  by (simp add: py_strip_def)

lemma lines_Cons_space:
  assumes "is_space c"
  shows "filter (\<lambda>l. l \<noteq> []) (map py_strip (split_on newline (c # cs)))
       = filter (\<lambda>l. l \<noteq> []) (map py_strip (split_on newline cs))"
proof (cases "c = newline")
  case True
  then show ?thesis by simp
next
  case False
  obtain l ls where s: "split_on newline cs = l # ls"
    using split_on_not_Nil [of newline cs] by (cases "split_on newline cs") auto
  show ?thesis using False assms by (simp add: s strip_Cons_space)
qed

lemma lines_prefix:
  "\<forall>c\<in>set w. is_space c \<Longrightarrow>
     filter (\<lambda>l. l \<noteq> []) (map py_strip (split_on newline (w @ xs)))
       = filter (\<lambda>l. l \<noteq> []) (map py_strip (split_on newline xs))"
proof (induction w)
  case Nil
  then show ?case by simp
next
  case (Cons c w)
  then have "is_space c" by simp
  from lines_Cons_space [OF this, of "w @ xs"] Cons show ?case by simp
qed

lemma split_on_snoc:
  "split_on sep (xs @ [c]) =
     (if c = sep then split_on sep xs @ [[]]
      else butlast (split_on sep xs) @ [last (split_on sep xs) @ [c]])"
proof (induction xs)
  case Nil
  show ?case by simp
next
  case (Cons x xs)
  obtain l ls where s: "split_on sep xs = l # ls"
    using split_on_not_Nil [of sep xs] by (cases "split_on sep xs") auto
  show ?case using Cons by (auto simp: s split: list.splits)
qed

lemma lines_snoc_space:
  assumes "is_space c"
  shows "filter (\<lambda>l. l \<noteq> []) (map py_strip (split_on newline (xs @ [c])))
       = filter (\<lambda>l. l \<noteq> []) (map py_strip (split_on newline xs))"
proof -
  let ?S = "split_on newline xs"
  have ne: "?S \<noteq> []" by (rule split_on_not_Nil)
  show ?thesis
  proof (cases "c = newline")
    case True
    then show ?thesis by (simp add: split_on_snoc)
  next
    case False
    have "map py_strip (butlast ?S @ [last ?S @ [c]])
        = map py_strip (butlast ?S) @ [py_strip (last ?S)]"
      using assms by (simp add: strip_snoc_space)
    also have "\<dots> = map py_strip (butlast ?S @ [last ?S])" by simp
    also have "\<dots> = map py_strip ?S" using ne by simp
    finally show ?thesis using False by (simp add: split_on_snoc)
  qed
qed

lemma lines_suffix:
  "\<forall>c\<in>set w. is_space c \<Longrightarrow>
     filter (\<lambda>l. l \<noteq> []) (map py_strip (split_on newline (xs @ w)))
       = filter (\<lambda>l. l \<noteq> []) (map py_strip (split_on newline xs))"
proof (induction w rule: rev_induct)
  case Nil
  then show ?case by simp
next
  case (snoc c w)
  then have "is_space c" by simp
  from lines_snoc_space [OF this, of "xs @ w"] snoc show ?case by simp
qed

lemma lines_strip:
  "filter (\<lambda>l. l \<noteq> []) (map py_strip (split_on newline (py_strip t)))
     = filter (\<lambda>l. l \<noteq> []) (map py_strip (split_on newline t))"
proof -
  let ?u = "dropWhile is_space t"
  let ?w = "rev (takeWhile is_space (rev ?u))"
  have "rev (takeWhile is_space (rev ?u) @ dropWhile is_space (rev ?u)) = ?u"
    by (simp only: takeWhile_dropWhile_id rev_rev_ident)
  then have "rev (dropWhile is_space (rev ?u)) @ ?w = ?u"
    by (simp only: rev_append)
  then have u: "?u = py_strip t @ ?w" by (simp only: py_strip_def)
  have w: "\<forall>c\<in>set ?w. is_space c" by (auto dest: set_takeWhileD)
  have t: "t = takeWhile is_space t @ ?u" by simp
  have p: "\<forall>c\<in>set (takeWhile is_space t). is_space c" by (auto dest: set_takeWhileD)
  have "filter (\<lambda>l. l \<noteq> []) (map py_strip (split_on newline t))
      = filter (\<lambda>l. l \<noteq> []) (map py_strip (split_on newline (takeWhile is_space t @ ?u)))"
    by simp
  also have "\<dots> = filter (\<lambda>l. l \<noteq> []) (map py_strip (split_on newline ?u))"
    by (rule lines_prefix [OF p])
  also have "\<dots> = filter (\<lambda>l. l \<noteq> []) (map py_strip (split_on newline (py_strip t @ ?w)))"
    using u by simp
  also have "\<dots> = filter (\<lambda>l. l \<noteq> []) (map py_strip (split_on newline (py_strip t)))"
    by (rule lines_suffix [OF w])
  finally show ?thesis by simp
qed

lemma block_problems_filter:
  "\<not> chap [] \<Longrightarrow> block_problems chap (filter (\<lambda>l. l \<noteq> []) ls) = block_problems chap ls"
  by (induction ls) (auto simp: block_problems_def)

lemma chapter_blocks_filter:
  "\<not> chap [] \<Longrightarrow>
     chapter_blocks chap key (filter (\<lambda>l. l \<noteq> []) ls) = chapter_blocks chap key ls"
  by (induction ls) (auto simp: block_problems_filter)

lemma not_chapter_Nil: "\<not> is_chapter_line []"
  by (simp add: is_chapter_line_def startswith_def py_lower_def)

lemma block_problems_cong:
  "(\<And>l. l \<in> set ls \<Longrightarrow> chap l = chap' l) \<Longrightarrow> block_problems chap ls = block_problems chap' ls"
  by (induction ls) (auto simp: block_problems_def)

lemma chapter_blocks_cong:
  "(\<And>l. l \<in> set ls \<Longrightarrow> chap l = chap' l) \<Longrightarrow>
   (\<And>l. l \<in> set ls \<Longrightarrow> chap l \<Longrightarrow> key l = key' l) \<Longrightarrow>
     chapter_blocks chap key ls = chapter_blocks chap' key' ls"
proof (induction ls)
  case Nil
  show ?case by simp
next
  case (Cons l ls)
  have "block_problems chap ls = block_problems chap' ls"
    by (rule block_problems_cong) (simp add: Cons.prems(1))
  moreover have "chapter_blocks chap key ls = chapter_blocks chap' key' ls"
    by (rule Cons.IH) (simp_all add: Cons.prems)
  ultimately show ?case using Cons.prems by simp
qed

lemma parse_problems_lines:
  "parse_problems text
     = Inr (assemble (chapter_blocks is_chapter_line second_token
              (map py_strip (split_on newline text))))"
proof -
  have "chapter_blocks is_chapter_line second_token (map py_strip (split_on newline (py_strip text)))
      = chapter_blocks is_chapter_line second_token
          (filter (\<lambda>l. l \<noteq> []) (map py_strip (split_on newline (py_strip text))))"
    by (simp only: chapter_blocks_filter [where chap = is_chapter_line, OF not_chapter_Nil])
  also have "\<dots> = chapter_blocks is_chapter_line second_token
          (filter (\<lambda>l. l \<noteq> []) (map py_strip (split_on newline text)))"
    by (simp only: lines_strip)
  also have "\<dots> = chapter_blocks is_chapter_line second_token
          (map py_strip (split_on newline text))"
    by (simp only: chapter_blocks_filter [where chap = is_chapter_line, OF not_chapter_Nil])
  finally show ?thesis by (simp only: parse_problems_blocks)
qed

text \<open>
  Claim C7, amended: for every text, \<^verbatim>\<open>parse_problems\<close> raises nothing and returns the
  dictionary of the grammar (lines trimmed, a block per chapter line, trimmed
  comma-separated pieces of the non-empty lines in order, lines before the first chapter
  line ignored), where a chapter line is a trimmed line that begins with "chapter" in
  any letter case followed by a space character and a token, and its key is that
  token.
\<close>

theorem parse_problems_refines_grammar:
  "parse_problems text = Inr (spec_parse (\<lambda>c. c = CHR '' '') text)"
proof -
  have "chapter_blocks is_chapter_line second_token (map py_strip (split_on newline text))
      = chapter_blocks (spec_chapter_line (\<lambda>c. c = CHR '' '')) spec_key
          (map py_strip (split_on newline text))"
  proof (rule chapter_blocks_cong)
    fix l assume "l \<in> set (map py_strip (split_on newline text))"
    then obtain raw where l: "l = py_strip raw" by auto
    show "is_chapter_line l = spec_chapter_line (\<lambda>c. c = CHR '' '') l"
      by (rule chapter_line_iff [OF l])
    assume "is_chapter_line l"
    then show "second_token l = spec_key l" by (rule second_token_key [OF l])
  qed
  then show ?thesis
    by (simp only: parse_problems_lines spec_parse_def spec_trim_lines_def)
qed

lemmas parser_eval = parse_problems_def parse_line_def py_strip_def is_space_def newline_def
  startswith_def py_lower_def lower_char_def split_ws.simps Let_def

lemmas spec_eval = spec_parse_def spec_trim_lines_def spec_chapter_line_def spec_key_def
  spec_pieces_def block_problems_def assemble_def py_strip_def is_space_def newline_def
  py_lower_def lower_char_def

text \<open>
  The scenario of the specification, obtained from the theorem:
  \<^verbatim>\<open>"Chapter 1\n1.1, 1.2a\nChapter 2\n2.1"\<close> gives chapter 1 with 1.1 and 1.2a, and
  chapter 2 with 2.1.
\<close>

theorem parse_problems_scenario:
  "parse_problems scenario_text = Inr [(''1'', [''1.1'', ''1.2a'']), (''2'', [''2.1''])]"
proof -
  have "spec_parse (\<lambda>c. c = CHR '' '') scenario_text
      = [(''1'', [''1.1'', ''1.2a'']), (''2'', [''2.1''])]"
    by (simp add: scenario_text_def spec_eval)
  with parse_problems_refines_grammar [of scenario_text] show ?thesis by simp
qed

text \<open>
  Claim C7 as stated, with any whitespace after "chapter", fails: in
  \<^verbatim>\<open>"Chapter 1\nChapter\t2\n2.1"\<close> the second line has a tab after "Chapter". The
  grammar of the claim opens chapter 2 there; \<^verbatim>\<open>parse_problems\<close> takes the line as
  a problem of chapter 1.
\<close>

theorem tab_is_no_chapter_line:
  "parse_problems tab_text = Inr [(''1'', [''Chapter'' @ [CHR 0x09] @ ''2'', ''2.1''])]
   \<and> spec_parse is_space tab_text = [(''1'', []), (''2'', [''2.1''])]
   \<and> parse_problems tab_text \<noteq> Inr (spec_parse is_space tab_text)"
proof -
  have a: "parse_problems tab_text = Inr [(''1'', [''Chapter'' @ [CHR 0x09] @ ''2'', ''2.1''])]"
    by (simp add: tab_text_def parser_eval)
  have b: "spec_parse is_space tab_text = [(''1'', []), (''2'', [''2.1''])]"
    by (simp add: tab_text_def spec_eval)
  show ?thesis by (simp add: a b)
qed

subsection \<open>The parser: repeated chapters\<close>

lemma chapter_blocks_append:
  "\<exists>X. chapter_blocks chap key (pre @ ls) = X @ chapter_blocks chap key ls"
proof (induction pre)
  case Nil
  show ?case by simp
next
  case (Cons l pre)
  then obtain X where "chapter_blocks chap key (pre @ ls) = X @ chapter_blocks chap key ls"
    by blast
  then show ?case by (cases "chap l") (auto intro: exI [of _ "_ # X"])
qed

lemma chapter_blocks_keys:
  "k \<in> fst ` set (chapter_blocks chap key ls) \<Longrightarrow> \<exists>l\<in>set ls. chap l \<and> key l = k"
  by (induction ls) (auto split: if_splits)

lemma map_of_foldl_update_other:
  "k \<notin> fst ` set bs \<Longrightarrow>
     map_of (foldl (\<lambda>d b. AList.update (fst b) (snd b) d) P bs) k = map_of P k"
  by (induction bs arbitrary: P) (auto simp: AList.update_conv)

lemma map_of_assemble_last:
  assumes "k \<notin> fst ` set Y"
  shows "map_of (assemble (X @ (k, v) # Y)) k = Some v"
proof -
  have "assemble (X @ (k, v) # Y)
      = foldl (\<lambda>d b. AList.update (fst b) (snd b) d)
          (AList.update k v (foldl (\<lambda>d b. AList.update (fst b) (snd b) d) [] X)) Y"
    by (simp add: assemble_def)
  with map_of_foldl_update_other [OF assms] show ?thesis
    by (simp add: AList.update_conv)
qed

text \<open>
  Claim C10: a chapter line sets the problems of its key to the empty list, whatever
  the dictionary held before; and when the trimmed lines of a text are \<open>pre\<close>, a
  chapter line \<open>cl\<close> and \<open>post\<close>, where no chapter line of \<open>post\<close> has the key of
  \<open>cl\<close>, the result holds for that key exactly the problems listed in \<open>post\<close> up to
  its next chapter line: nothing listed in \<open>pre\<close> under the same key remains.
\<close>

theorem repeated_chapter_resets:
  "(is_chapter_line (py_strip raw) \<longrightarrow>
      (\<exists>P'. parse_line raw (P, cur) = Inr (P', Some (second_token (py_strip raw))) \<and>
         map_of P' (second_token (py_strip raw)) = Some []))
   \<and>
   (spec_trim_lines text = pre @ cl # post \<and> is_chapter_line cl \<and>
    (\<forall>l\<in>set post. is_chapter_line l \<longrightarrow> second_token l \<noteq> second_token cl) \<longrightarrow>
      (\<exists>problems. parse_problems text = Inr problems \<and>
         map_of problems (second_token cl) = Some (block_problems is_chapter_line post)))"
proof (intro conjI impI)
  assume "is_chapter_line (py_strip raw)"
  then show "\<exists>P'. parse_line raw (P, cur) = Inr (P', Some (second_token (py_strip raw))) \<and>
         map_of P' (second_token (py_strip raw)) = Some []"
    by (simp add: parse_line_chapter AList.update_conv)
next
  assume a: "spec_trim_lines text = pre @ cl # post \<and> is_chapter_line cl \<and>
    (\<forall>l\<in>set post. is_chapter_line l \<longrightarrow> second_token l \<noteq> second_token cl)"
  let ?k = "second_token cl"
  let ?Y = "chapter_blocks is_chapter_line second_token post"
  from chapter_blocks_append [of is_chapter_line second_token pre "cl # post"]
  obtain X where "chapter_blocks is_chapter_line second_token (pre @ cl # post)
      = X @ chapter_blocks is_chapter_line second_token (cl # post)" by blast
  with a have bl: "chapter_blocks is_chapter_line second_token (spec_trim_lines text)
      = X @ (?k, block_problems is_chapter_line post) # ?Y" by simp
  have "?k \<notin> fst ` set ?Y"
  proof
    assume "?k \<in> fst ` set ?Y"
    from chapter_blocks_keys [OF this] a show False by blast
  qed
  from map_of_assemble_last [OF this]
  have "map_of (assemble (X @ (?k, block_problems is_chapter_line post) # ?Y)) ?k
      = Some (block_problems is_chapter_line post)" .
  with bl show "\<exists>problems. parse_problems text = Inr problems \<and>
         map_of problems ?k = Some (block_problems is_chapter_line post)"
    by (simp add: parse_problems_lines spec_trim_lines_def)
qed

text \<open>
  Witness for C10: chapter 1 is named twice; only the problem after its second chapter
  line remains.
\<close>

theorem repeated_chapter_resets_witness:
  "is_chapter_line (py_strip ''  Chapter 1'') \<and>
   (\<exists>P'. parse_line ''  Chapter 1'' ([(''1'', [''1.1'', ''1.2''])], Some ''1'')
            = Inr (P', Some (second_token (py_strip ''  Chapter 1''))) \<and>
      map_of P' (second_token (py_strip ''  Chapter 1'')) = Some []) \<and>
   (spec_trim_lines repeat_text
      = [''Chapter 1'', ''1.1, 1.2'', ''Chapter 2'', ''2.1''] @ ''Chapter 1'' # [''1.3''] \<and>
    is_chapter_line ''Chapter 1'' \<and> \<not> is_chapter_line ''1.3'') \<and>
   second_token ''Chapter 1'' = ''1'' \<and>
   block_problems is_chapter_line [''1.3''] = [''1.3''] \<and>
   (\<exists>problems. parse_problems repeat_text = Inr problems \<and>
      map_of problems (second_token ''Chapter 1'')
        = Some (block_problems is_chapter_line [''1.3'']))"
proof -
  have h1: "is_chapter_line (py_strip ''  Chapter 1'')"
    by (simp add: is_chapter_line_def py_strip_def is_space_def startswith_def py_lower_def
        lower_char_def)
  have h2: "spec_trim_lines repeat_text
      = [''Chapter 1'', ''1.1, 1.2'', ''Chapter 2'', ''2.1''] @ ''Chapter 1'' # [''1.3''] \<and>
    is_chapter_line ''Chapter 1'' \<and>
    (\<forall>l\<in>set [''1.3'']. is_chapter_line l \<longrightarrow> second_token l \<noteq> second_token ''Chapter 1'')"
    by (simp add: repeat_text_def spec_trim_lines_def newline_def is_chapter_line_def
        py_strip_def is_space_def startswith_def py_lower_def lower_char_def)
  have k: "second_token ''Chapter 1'' = ''1''"
    by (simp add: second_token_def split_ws.simps is_space_def)
  have b: "block_problems is_chapter_line [''1.3''] = [''1.3'']"
    by (simp add: block_problems_def spec_pieces_def is_chapter_line_def
        py_strip_def is_space_def startswith_def py_lower_def lower_char_def)
  note inst = repeated_chapter_resets [of "''  Chapter 1''" "[(''1'', [''1.1'', ''1.2''])]"
      "Some ''1''" repeat_text "[''Chapter 1'', ''1.1, 1.2'', ''Chapter 2'', ''2.1'']"
      "''Chapter 1''" "[''1.3'']"]
  have h3: "spec_trim_lines repeat_text
      = [''Chapter 1'', ''1.1, 1.2'', ''Chapter 2'', ''2.1''] @ ''Chapter 1'' # [''1.3''] \<and>
    is_chapter_line ''Chapter 1'' \<and> \<not> is_chapter_line ''1.3''"
    by (simp add: repeat_text_def spec_trim_lines_def newline_def is_chapter_line_def
        py_strip_def is_space_def startswith_def py_lower_def lower_char_def)
  show ?thesis
    by (rule conjI [OF h1 conjI [OF inst [THEN conjunct1, THEN mp, OF h1]
          conjI [OF h3 conjI [OF k conjI [OF b inst [THEN conjunct2, THEN mp, OF h2]]]]]])
qed

subsection \<open>Saving and loading\<close>

text \<open>
  Claim C1, at a textbook with one completed problem: after \<^verbatim>\<open>save_textbooks\<close> and
  \<^verbatim>\<open>load_textbooks\<close> the textbook comes back with an empty completion map, so the
  loaded list differs from the saved one.
\<close>

theorem completed_problems_lost:
  "load_textbooks other (save_textbooks [marked_textbook]) = Inr [example_textbook]
   \<and> load_textbooks other (save_textbooks [marked_textbook]) \<noteq> Inr [marked_textbook]"
  by (simp add: load_textbooks_def save_textbooks_def iterate_def from_dict_def and_then_def
      to_dict_def getitem_def fromisoformat_value_def as_str_def as_int_def as_problems_dict_def
      marked_textbook_def example_textbook_def Textbook_def
      isoformat_def pad4_def pad2_def digit_char_def
      fromisoformat_def is_digit_def digits_value_def digit_val_def valid_date_def
      days_in_month_def is_leap_def Let_def)

text \<open>
  Claim C3, at a file that is not JSON, at a file holding a list with an empty object,
  and at a file holding a number: \<^verbatim>\<open>load_textbooks\<close> raises \<^verbatim>\<open>JSONDecodeError\<close>,
  \<^verbatim>\<open>KeyError\<close> and \<^verbatim>\<open>TypeError\<close>. \<^verbatim>\<open>load_completed_problems\<close> of the QFT tracker
  answers such files with the empty dictionary.
\<close>

theorem load_textbooks_raises:
  "load_textbooks other Undecodable = Inl JSONDecodeError
   \<and> load_textbooks other (Contents (JList [JObj []])) = Inl KeyError
   \<and> load_textbooks other (Contents (JInt 5)) = Inl TypeError
   \<and> load_completed_problems Undecodable = Inr []
   \<and> load_completed_problems (Contents (JInt 5)) = Inr []
   \<and> load_completed_problems (Contents (JList [JList []])) = Inr []"
  by (simp add: load_textbooks_def iterate_def from_dict_def and_then_def getitem_def
      load_completed_problems_def)

lemma digit_char_props: "is_digit (digit_char n) \<and> digit_val (digit_char n) = n mod 10"
proof -
  have "n mod 10 < 10" by simp
  then have "n mod 10 = 0 \<or> n mod 10 = 1 \<or> n mod 10 = 2 \<or> n mod 10 = 3 \<or> n mod 10 = 4 \<or>
      n mod 10 = 5 \<or> n mod 10 = 6 \<or> n mod 10 = 7 \<or> n mod 10 = 8 \<or> n mod 10 = 9"
    by arith
  then show ?thesis
    by (elim disjE) (simp_all add: digit_char_def is_digit_def digit_val_def)
qed

lemma pad2_value:
  assumes "0 \<le> n" "n < 100"
  shows "list_all is_digit (pad2 n)" "int (digits_value (pad2 n)) = n" "length (pad2 n) = 2"
proof -
  show "list_all is_digit (pad2 n)" by (simp add: pad2_def digit_char_props)
  show "length (pad2 n) = 2" by (simp add: pad2_def)
  have "digits_value (pad2 n) = 10 * (nat n div 10 mod 10) + nat n mod 10"
    by (simp add: pad2_def digits_value_def digit_char_props)
  also have "nat n div 10 mod 10 = nat n div 10" using assms by simp
  finally show "int (digits_value (pad2 n)) = n" using assms by simp
qed

lemma pad4_value:
  assumes "0 \<le> n" "n < 10000"
  shows "list_all is_digit (pad4 n)" "int (digits_value (pad4 n)) = n" "length (pad4 n) = 4"
proof -
  show "list_all is_digit (pad4 n)" by (simp add: pad4_def digit_char_props)
  show "length (pad4 n) = 4" by (simp add: pad4_def)
  let ?m = "nat n"
  have "digits_value (pad4 n)
      = 10 * (10 * (10 * (?m div 1000 mod 10) + ?m div 100 mod 10) + ?m div 10 mod 10) + ?m mod 10"
    by (simp add: pad4_def digits_value_def digit_char_props)
  also have "?m div 1000 mod 10 = ?m div 1000" using assms by simp
  also have "?m div 1000 = ?m div 100 div 10" by (simp add: div_mult2_eq)
  also have "10 * (?m div 100 div 10) + ?m div 100 mod 10 = ?m div 100" by simp
  also have "?m div 100 = ?m div 10 div 10" by (simp add: div_mult2_eq)
  also have "10 * (?m div 10 div 10) + ?m div 10 mod 10 = ?m div 10" by simp
  also have "10 * (?m div 10) + ?m mod 10 = ?m" by simp
  finally show "int (digits_value (pad4 n)) = n" using assms by simp
qed

lemma fromisoformat_isoformat:
  assumes "valid_date d"
  shows "fromisoformat other (isoformat d) = Inr d"
proof -
  from assms have y: "0 \<le> year d" "year d < 10000" and m: "0 \<le> month d" "month d < 100"
    by (simp_all add: valid_date_def)
  from assms have "day d \<le> days_in_month (year d) (month d)" "1 \<le> day d"
    by (simp_all add: valid_date_def)
  moreover have "days_in_month (year d) (month d) \<le> 31" by (simp add: days_in_month_def)
  ultimately have dd: "0 \<le> day d" "day d < 100" by simp_all
  let ?s = "isoformat d"
  have parts: "take 4 ?s = pad4 (year d)" "take 2 (drop 5 ?s) = pad2 (month d)"
    "drop 8 ?s = pad2 (day d)" "?s ! 4 = CHR ''-''" "?s ! 7 = CHR ''-''" "length ?s = 10"
    by (simp_all add: isoformat_def pad4_def pad2_def)
  have "Date (int (digits_value (pad4 (year d)))) (int (digits_value (pad2 (month d))))
          (int (digits_value (pad2 (day d)))) = d"
    by (simp add: pad4_value(2) [OF y] pad2_value(2) [OF m] pad2_value(2) [OF dd])
  then show ?thesis
    using assms
    by (simp add: fromisoformat_def parts pad4_value(1) [OF y] pad2_value(1) [OF m]
        pad2_value(1) [OF dd] Let_def)
qed

lemma as_str_list_map: "as_str_list (map JStr ps) = Inr ps"
  by (induction ps) simp_all

lemma as_chapters_map:
  "as_chapters (map (\<lambda>kv. (fst kv, JList (map JStr (snd kv)))) pd) = Inr pd"
  by (induction pd) (simp_all add: as_str_list_map)

text \<open>
  What does survive saving and loading: every field but the completion map.
\<close>

lemma from_dict_to_dict:
  assumes "valid_date (start_date tb)" "valid_date (end_date tb)"
  shows "from_dict other (to_dict tb) = Inr (tb\<lparr>completed_problems := []\<rparr>)"
  by (simp add: from_dict_def to_dict_def and_then_def getitem_def fromisoformat_value_def
      fromisoformat_isoformat [OF assms(1)] fromisoformat_isoformat [OF assms(2)]
      as_str_def as_int_def as_problems_dict_def as_chapters_map Textbook_def)

lemma from_dicts_to_dicts:
  "\<forall>tb\<in>set tbs. valid_date (start_date tb) \<and> valid_date (end_date tb) \<Longrightarrow>
     from_dicts other (map to_dict tbs)
       = Inr (map (\<lambda>tb. tb\<lparr>completed_problems := []\<rparr>) tbs)"
  by (induction tbs) (simp_all add: from_dict_to_dict)

lemma load_save:
  "\<forall>tb\<in>set tbs. valid_date (start_date tb) \<and> valid_date (end_date tb) \<Longrightarrow>
     load_textbooks other (save_textbooks tbs)
       = Inr (map (\<lambda>tb. tb\<lparr>completed_problems := []\<rparr>) tbs)"
  by (simp add: load_textbooks_def save_textbooks_def iterate_def from_dicts_to_dicts)

subsection \<open>The add dialog\<close>

text \<open>
  Claim C2, amended: \<^verbatim>\<open>parse_and_add\<close> reports an exception and leaves the list of
  textbooks as it was whenever a date text is not read by \<^verbatim>\<open>date.fromisoformat\<close>, the
  start date is after the end date, or the page text is not read by \<^verbatim>\<open>int\<close>,
  whatever the later steps would do; in every other case, when the file is written and
  the window calls succeed, it appends one textbook with current page 0 and no
  completed problem and reports nothing, whatever the sign of the page count; and
  \<^verbatim>\<open>parse_problems\<close> never raises. This holds for every Python's reading of other date
  shapes.
\<close>

theorem add_textbook_validation:
  "(add_rejected other en \<longrightarrow>
      (\<exists>e. parse_and_add other en save_raises window_raises tbs = (tbs, Some e)))
   \<and> (\<not> add_rejected other en \<longrightarrow>
        (\<exists>sd ed tp ps. fromisoformat other (e_start en) = Inr sd \<and>
           fromisoformat other (e_end en) = Inr ed \<and>
           \<not> date_less ed sd \<and> py_int (e_pages en) = Inr tp \<and>
           parse_problems (e_problems en) = Inr ps \<and>
           parse_and_add other en None None tbs
             = (tbs @ [Textbook (e_name en) (e_author en) tp ps sd ed 0], None)))
   \<and> (\<forall>e. parse_problems (e_problems en) \<noteq> Inl e)"
  by (auto simp: add_rejected_def parse_and_add_def parse_problems_lines Let_def
        split: sum.splits)

text \<open>
  For the record, the later steps: when the input is accepted and the write or a window
  call raises, the error box reports that exception and the textbook stays appended.
\<close>

lemma parse_and_add_later_failure:
  assumes "\<not> add_rejected other en" "save_raises \<noteq> None \<or> window_raises \<noteq> None"
  shows "\<exists>new e. parse_and_add other en save_raises window_raises tbs = (tbs @ [new], Some e)"
  using assms
  by (auto simp: add_rejected_def parse_and_add_def parse_problems_lines Let_def
        split: sum.splits option.splits)

lemmas date_eval = fromisoformat_def is_digit_def digits_value_def digit_val_def valid_date_def
      days_in_month_def is_leap_def Let_def

text \<open>
  Witness for C2, the scenario of the specification: start 2025-06-01, end 2025-01-01.
  The call reports \<^verbatim>\<open>ValueError\<close> and the list is unchanged.
\<close>

theorem add_textbook_validation_witness:
  "add_rejected strict_dates reversed_dates \<and>
   parse_and_add strict_dates reversed_dates None None [example_textbook]
      = ([example_textbook], Some ValueError)"
proof -
  have r: "add_rejected strict_dates reversed_dates"
    by (simp add: add_rejected_def reversed_dates_def date_eval date_less_def)
  from add_textbook_validation [of strict_dates reversed_dates None None "[example_textbook]",
      THEN conjunct1, THEN mp, OF r]
  obtain e where e: "parse_and_add strict_dates reversed_dates None None [example_textbook]
      = ([example_textbook], Some e)"
    by blast
  have "snd (parse_and_add strict_dates reversed_dates None None [example_textbook])
      = Some ValueError"
    by (simp add: parse_and_add_def reversed_dates_def date_eval date_less_def)
  with e have "e = ValueError" by simp
  with e r show ?thesis by simp
qed

text \<open>
  Claim C2 as stated fails twice. With a total of zero pages the textbook is appended and
  no exception is reported. And with accepted input and a file that cannot be written,
  the call fails (the error box reports \<^verbatim>\<open>OSError\<close>) with the new textbook appended.
\<close>

theorem zero_pages_accepted:
  "parse_and_add strict_dates zero_pages None None []
     = ([Textbook ''QFT'' ''Peskin'' 0 [(''1'', [''1.1'', ''1.2a'']), (''2'', [''2.1''])]
           (Date 2025 1 13) (Date 2025 5 9) 0], None)
   \<and> total_pages (hd (fst (parse_and_add strict_dates zero_pages None None []))) \<le> 0
   \<and> parse_and_add strict_dates plain_entries (Some OSError) None []
     = ([Textbook ''QFT'' ''Peskin'' 258 [(''1'', [''1.1'', ''1.2a'']), (''2'', [''2.1''])]
           (Date 2025 1 13) (Date 2025 5 9) 0], Some OSError)"
proof -
  have p: "parse_problems (scenario_text @ [newline])
      = Inr [(''1'', [''1.1'', ''1.2a'']), (''2'', [''2.1''])]"
    by (simp add: scenario_text_def parser_eval)
  have i: "py_int ''0'' = Inr 0"
    by (simp add: int_eval)
  have j: "py_int ''258'' = Inr 258"
    by (simp add: int_eval)
  have a: "parse_and_add strict_dates zero_pages None None []
     = ([Textbook ''QFT'' ''Peskin'' 0 [(''1'', [''1.1'', ''1.2a'']), (''2'', [''2.1''])]
           (Date 2025 1 13) (Date 2025 5 9) 0], None)"
    by (simp add: parse_and_add_def zero_pages_def p i date_eval date_less_def)
  have b: "parse_and_add strict_dates plain_entries (Some OSError) None []
     = ([Textbook ''QFT'' ''Peskin'' 258 [(''1'', [''1.1'', ''1.2a'']), (''2'', [''2.1''])]
           (Date 2025 1 13) (Date 2025 5 9) 0], Some OSError)"
    by (simp add: parse_and_add_def plain_entries_def p j date_eval date_less_def)
  show ?thesis by (simp add: a b Textbook_def)
qed

end
